theory Spec2Isabelle
  imports Main "HOL-Library.Multiset"
begin

section \<open>Key bindings (gui.go, lines 11-54)\<close>

text \<open>
  The physical key codes of the terminal toolkit that gui.go names. The toolkit declares
  them as pairwise different integer constants; the program only compares them for
  equality, so they are an enumeration here. \<open>KeyOther\<close> stands for every code that
  gui.go does not name.
\<close>

datatype Key =
    KeyF1 | KeyF2 | KeyF3 | KeyF4 | KeyF5 | KeyF6 | KeyF7 | KeyF9
  | KeyCtrlS | KeyCtrlK | KeyCtrlY | KeyCtrlA | KeyCtrlO | KeyCtrlN
  | KeyCtrlF | KeyCtrlR | KeyCtrlQ
  | KeyEsc | KeyTab | KeyEnter
  | KeyOther nat

text \<open>
  \<open>type KeyBindings map[string][]tcell.Key\<close>. A Go map has no iteration order, so the
  table is kept as an association list in the order of the source text, and every
  function that ranges over the map takes the order of that one traversal as its
  argument: some rearrangement of the entries of the table.
\<close>

type_synonym KeyBindings = "(string \<times> Key list) list"

definition keyBindings :: KeyBindings where
  "keyBindings =
    [ (''search'',           [KeyF2, KeyCtrlS]),
      (''keys'',             [KeyF3, KeyCtrlK]),
      (''key_list_value'',   [KeyF6, KeyCtrlY]),
      (''key_string_value'', [KeyF7, KeyCtrlA]),
      (''key_hash'',         [KeyF6, KeyCtrlY]),
      (''output'',           [KeyF9, KeyCtrlO]),
      (''command'',          [KeyF1, KeyCtrlN]),
      (''command_focus'',    [KeyF4, KeyCtrlF]),
      (''command_result'',   [KeyF5, KeyCtrlR]),
      (''quit'',             [KeyEsc, KeyCtrlQ]),
      (''switch_focus'',     [KeyTab]) ]"

definition traversal_of :: "KeyBindings \<Rightarrow> KeyBindings \<Rightarrow> bool" where
  "traversal_of kb ord = (mset ord = mset kb)"

text \<open>
  \<open>SearchKey\<close>: the outer loop ranges over the map (here: over the traversal \<open>ord\<close>), the
  inner loop over the codes of one entry; the first hit returns the entry's name, and
  the empty string is returned when no entry has the code.
\<close>

fun SearchKey :: "KeyBindings \<Rightarrow> Key \<Rightarrow> string" where
  "SearchKey [] k = ''''"
| "SearchKey ((name, bind) # ord) k =
     (if k \<in> set bind then name else SearchKey ord k)"

definition KeyID :: "string \<Rightarrow> string" where
  "KeyID key = key"

definition Keys :: "KeyBindings \<Rightarrow> string \<Rightarrow> Key list" where
  "Keys kb key = (case map_of kb key of None \<Rightarrow> [] | Some bind \<Rightarrow> bind)"

section \<open>Formatting (the \<open>fmt.Sprintf\<close> verbs that gui.go uses)\<close>

text \<open>
  \<open>%d\<close> prints an integer in decimal, with a minus sign when negative; \<open>%3d\<close> pads the
  result on the left with spaces up to a width of three and never cuts it; \<open>%s\<close> inserts
  the string as it is.
\<close>

definition digit_char :: "nat \<Rightarrow> char" where
  "digit_char d = ''0123456789'' ! d"

fun digits :: "nat \<Rightarrow> string" where
  "digits n = (if n < 10 then [digit_char n] else digits (n div 10) @ [digit_char (n mod 10)])"

declare digits.simps [simp del]

definition fmt_d :: "int \<Rightarrow> string" where
  "fmt_d i = (if i < 0 then CHR ''-'' # digits (nat (- i)) else digits (nat i))"

definition pad_left :: "nat \<Rightarrow> string \<Rightarrow> string" where
  "pad_left w s = replicate (w - length s) CHR '' '' @ s"

definition fmt_3d :: "int \<Rightarrow> string" where
  "fmt_3d i = pad_left 3 (fmt_d i)"

section \<open>Data model (gui.go, lines 56-104)\<close>

text \<open>
  The widgets are objects of the toolkit; the program holds pointers to them and compares
  the pointers. One constructor per widget that gui.go creates: the fields of \<open>RedisGli\<close>
  and the three detail views that \<open>createKeySelectedHandler\<close> keeps in its closure.
\<close>

datatype Primitive =
    P_welcomeScreen | P_metaPanel | P_mainPanel | P_outputPanel | P_keyItemsPanel
  | P_summaryPanel | P_searchPanel | P_helpPanel | P_helpMessagePanel
  | P_helpServerInfoPanel | P_commandPanel | P_commandFormPanel | P_commandResultPanel
  | P_leftPanel | P_rightPanel
  | P_mainStringView | P_mainHashView | P_mainListView

record primitiveKey =
  Primitive :: Primitive
  Key :: string

text \<open>
  The colours that gui.go names; \<open>ColorZero\<close> is the zero value of the type, which a
  message built without a colour carries.
\<close>

datatype Color = ColorZero | ColorRed | ColorGreen | ColorOrange

record OutputMessage =
  Color :: Color
  Message :: string

record Config =
  Debug :: bool

text \<open>Run-time panics of Go that the modelled code can raise.\<close>

datatype panic = SliceBoundsOutOfRange | IndexOutOfRange | NilPointerDereference

text \<open>
  The store client is an external collaborator. Each operation returns either the text of
  its error (\<open>Inl\<close>) or its result; durations, members and scores arrive as the text that
  the client's own formatting gives them. \<open>rc_Execute\<close> and \<open>rc_ServerInfo\<close> stand for
  \<open>RedisExecute\<close> and \<open>RedisServerInfo\<close>, functions of the program outside gui.go;
  \<open>RedisServerInfo\<close> returns its text together with an optional error.
\<close>

record RedisClient =
  rc_Type :: "string \<Rightarrow> string + string"
  rc_TTL :: "string \<Rightarrow> string + string"
  rc_Get :: "string \<Rightarrow> string + string"
  rc_LRange :: "string \<Rightarrow> int \<Rightarrow> int \<Rightarrow> string + string list"
  rc_SMembers :: "string \<Rightarrow> string + string list"
  rc_ZRangeWithScores :: "string \<Rightarrow> int \<Rightarrow> int \<Rightarrow> string + (string \<times> string) list"
  rc_HKeys :: "string \<Rightarrow> string + string list"
  rc_HGet :: "string \<Rightarrow> string \<Rightarrow> string + string"
  rc_Scan :: "int \<Rightarrow> string \<Rightarrow> int \<Rightarrow> string + (string list \<times> int)"
  rc_Keys :: "string \<Rightarrow> string + string list"
  rc_Execute :: "string \<Rightarrow> string + string"
  rc_ServerInfo :: "string \<times> string option"

text \<open>The requests that the program sends to the store, in the order it sends them.\<close>

datatype StoreCall =
    CallType string | CallTTL string | CallGet string
  | CallLRange string int int | CallSMembers string
  | CallZRangeWithScores string int int
  | CallHKeys string | CallHGet string string
  | CallScan int string int | CallKeys string
  | CallExecute string | CallServerInfo

text \<open>
  The application state: the fields of \<open>RedisGli\<close> and the variables its closures
  capture. A widget field holds what the widget shows: a text view its text, an input
  field its text, a list its items, a flex container the widgets added to it.
  \<^item> \<open>keyItemsPanel\<close>: the text of an item and the index and key its handler was made for;
  \<^item> \<open>mainHashView\<close>: the text of an item and the key and subfield of its handler;
  \<^item> \<open>mainListView\<close>: main and secondary text of an item;
  \<^item> \<open>pages\<close>: the names of the pages, \<open>None\<close> while the field is still nil;
  \<^item> \<open>focus\<close>: the widget last passed to \<open>app.SetFocus\<close>;
  \<^item> \<open>outputChan\<close>: the messages sent on the channel so far;
  \<^item> \<open>locked\<close>: the variable of that name in \<open>createCommandPanel\<close>;
  \<^item> \<open>updates\<close>: the command texts of the updates that the goroutines started by the
    command form have queued for the UI thread and that have not run yet;
  \<^item> \<open>calls\<close>: the requests sent to the store so far.
\<close>

record RedisGli =
  metaPanel :: string
  mainPanel :: "Primitive list"
  mainPanelBorder :: bool
  keyItemsPanel :: "(string \<times> nat \<times> string) list"
  summaryPanel :: string
  searchPanel :: string
  helpServerInfoPanel :: string
  commandFormPanel :: string
  commandResultPanel :: string
  commandMode :: bool
  rightPanel :: "Primitive list"
  pages :: "string list option"
  focus :: "Primitive option"
  stopped :: bool
  outputChan :: "OutputMessage list"
  maxKeyLimit :: int
  version :: string
  gitCommit :: string
  focusPrimitives :: "primitiveKey list"
  currentFocusIndex :: int
  config :: Config
  locked :: bool
  updates :: "string list"
  mainStringView :: string
  mainStringViewTitle :: string
  mainHashView :: "(string \<times> string \<times> string) list"
  mainListView :: "(string \<times> string) list"
  mainListViewSecondary :: bool
  calls :: "StoreCall list"

section \<open>Toolkit operations on the modelled widgets\<close>

text \<open>
  \<open>Flex.AddItem\<close> appends a widget, \<open>Flex.RemoveItem\<close> removes every occurrence of it;
  \<open>Pages.AddPage\<close> replaces a page of the same name and puts the new page last,
  \<open>Pages.RemovePage\<close> removes the page of that name.
\<close>

definition AddItem :: "Primitive \<Rightarrow> Primitive list \<Rightarrow> Primitive list" where
  "AddItem p items = items @ [p]"

definition RemoveItem :: "Primitive \<Rightarrow> Primitive list \<Rightarrow> Primitive list" where
  "RemoveItem p items = filter (\<lambda>q. q \<noteq> p) items"

definition AddPage :: "string \<Rightarrow> string list \<Rightarrow> string list" where
  "AddPage name ps = filter (\<lambda>n. n \<noteq> name) ps @ [name]"

definition RemovePage :: "string \<Rightarrow> string list \<Rightarrow> string list" where
  "RemovePage name ps = filter (\<lambda>n. n \<noteq> name) ps"

definition SetFocus :: "Primitive \<Rightarrow> RedisGli \<Rightarrow> RedisGli" where
  "SetFocus p gli = gli\<lparr>focus := Some p\<rparr>"

text \<open>\<open>gli.outputChan <- m\<close>, and the sending of a request to the store.\<close>

definition send :: "Color \<Rightarrow> string \<Rightarrow> RedisGli \<Rightarrow> RedisGli" where
  "send c m gli = gli\<lparr>outputChan := outputChan gli @ [\<lparr>Color = c, Message = m\<rparr>]\<rparr>"

definition request :: "StoreCall \<Rightarrow> RedisGli \<Rightarrow> RedisGli" where
  "request c gli = gli\<lparr>calls := calls gli @ [c]\<rparr>"

text \<open>\<open>strings.Join\<close> and \<open>KeyBindings.Name\<close>; \<open>names\<close> is the toolkit's table \<open>tcell.KeyNames\<close>.\<close>

fun join :: "string list \<Rightarrow> string \<Rightarrow> string" where
  "join [] sep = ''''"
| "join [x] sep = x"
| "join (x # y # ys) sep = x @ sep @ join (y # ys) sep"

definition Name :: "(Key \<Rightarrow> string) \<Rightarrow> KeyBindings \<Rightarrow> string \<Rightarrow> string" where
  "Name names kb key = join (map names (Keys kb key)) '', ''"

section \<open>Construction (gui.go, lines 106-199 and the \<open>create...\<close> functions)\<close>

definition appendFocus :: "Primitive \<Rightarrow> string \<Rightarrow> RedisGli \<Rightarrow> RedisGli" where
  "appendFocus p key gli =
     gli\<lparr>focusPrimitives := focusPrimitives gli @ [\<lparr>Primitive = p, Key = KeyID key\<rparr>]\<rparr>"

definition redrawRightPanel :: "Primitive \<Rightarrow> RedisGli \<Rightarrow> RedisGli" where
  "redrawRightPanel center gli =
     gli\<lparr>rightPanel :=
       AddItem P_outputPanel (AddItem center (AddItem P_metaPanel (AddItem P_helpPanel
         (RemoveItem P_helpPanel (RemoveItem P_commandPanel (RemoveItem P_mainPanel
           (RemoveItem P_outputPanel (RemoveItem P_metaPanel (rightPanel gli)))))))))\<rparr>"

definition createMainPanel :: "RedisGli \<Rightarrow> RedisGli" where
  "createMainPanel gli = gli\<lparr>mainPanel := AddItem P_welcomeScreen [], mainPanelBorder := True\<rparr>"

definition createOutputPanel :: "RedisGli \<Rightarrow> RedisGli" where
  "createOutputPanel gli = appendFocus P_outputPanel ''output'' gli"

definition createCommandPanel :: "RedisGli \<Rightarrow> RedisGli" where
  "createCommandPanel gli =
     appendFocus P_commandResultPanel ''command_result''
       (appendFocus P_commandFormPanel ''command_focus'' (gli\<lparr>locked := False\<rparr>))"

definition createKeySelectedHandler :: "(Key \<Rightarrow> string) \<Rightarrow> RedisGli \<Rightarrow> RedisGli" where
  "createKeySelectedHandler names gli =
     gli\<lparr>mainStringView := '''',
         mainStringViewTitle := '' Value ('' @ Name names keyBindings ''key_string_value'' @ '') '',
         mainHashView := [], mainListView := [], mainListViewSecondary := False\<rparr>"

text \<open>
  \<open>NewRedisGli\<close>. The struct literal evaluates \<open>gitCommit[0:8]\<close> first, which panics when
  the string has fewer than eight bytes. The widgets start empty; \<open>pages\<close> stays nil
  until \<open>Start\<close>.
\<close>

definition NewRedisGli ::
  "(Key \<Rightarrow> string) \<Rightarrow> int \<Rightarrow> string \<Rightarrow> string \<Rightarrow> Config \<Rightarrow> panic + RedisGli" where
  "NewRedisGli names maxKeyLimit' version' gitCommit' config' =
     (if length gitCommit' < 8 then Inl SliceBoundsOutOfRange
      else Inr
        (appendFocus P_keyItemsPanel ''keys''
        (appendFocus P_searchPanel ''search''
        (redrawRightPanel P_mainPanel
        (createCommandPanel
        (createKeySelectedHandler names
        (createOutputPanel
        (createMainPanel
          \<lparr>metaPanel = '''', mainPanel = [], mainPanelBorder = False, keyItemsPanel = [],
           summaryPanel = '''', searchPanel = '''', helpServerInfoPanel = '''',
           commandFormPanel = '''', commandResultPanel = '''', commandMode = False,
           rightPanel = [], pages = None, focus = None, stopped = False,
           outputChan = [], maxKeyLimit = maxKeyLimit', version = version',
           gitCommit = take 8 gitCommit', focusPrimitives = [], currentFocusIndex = 0,
           config = config', locked = False, updates = [], mainStringView = '''',
           mainStringViewTitle = '''', mainHashView = [], mainListView = [],
           mainListViewSecondary = False, calls = []\<rparr>))))))))"

section \<open>The global input dispatcher (gui.go, lines 148-196)\<close>

text \<open>
  Go's \<open>int\<close> has 64 bits here: the result of an addition is taken modulo \<open>2^64\<close> into
  the range from \<open>-2^63\<close> to \<open>2^63 - 1\<close>.
\<close>

definition go_int :: "int \<Rightarrow> int" where
  "go_int x = (x + 2 ^ 63) mod 2 ^ 64 - 2 ^ 63"

text \<open>
  The case \<open>switch_focus\<close>: the index plus one, or 0 when that is beyond the last
  position; the entry there gets the focus. Indexing the slice out of range panics.
\<close>

definition switch_focus :: "RedisGli \<Rightarrow> panic + RedisGli" where
  "switch_focus gli =
     (let nextFocusIndex = go_int (currentFocusIndex gli + 1);
          nextFocusIndex = (if nextFocusIndex > int (length (focusPrimitives gli)) - 1
                            then 0 else nextFocusIndex)
      in if nextFocusIndex < 0 \<or> int (length (focusPrimitives gli)) \<le> nextFocusIndex
         then Inl IndexOutOfRange
         else Inr ((SetFocus (Primitive (focusPrimitives gli ! nat nextFocusIndex)) gli)
                     \<lparr>currentFocusIndex := nextFocusIndex\<rparr>))"

text \<open>The loop of the case \<open>command\<close>: no \<open>break\<close>, every matching entry is visited.\<close>

fun focusCommandForm :: "nat \<Rightarrow> primitiveKey list \<Rightarrow> RedisGli \<Rightarrow> RedisGli" where
  "focusCommandForm i [] gli = gli"
| "focusCommandForm i (p # ps) gli =
     focusCommandForm (Suc i) ps
       (if Primitive p = P_commandFormPanel
        then (SetFocus P_commandFormPanel gli)\<lparr>currentFocusIndex := int i\<rparr>
        else gli)"

text \<open>The loop of the default case: it stops at the first entry with the action's name.\<close>

fun focusByKey :: "string \<Rightarrow> nat \<Rightarrow> primitiveKey list \<Rightarrow> RedisGli \<Rightarrow> RedisGli" where
  "focusByKey name i [] gli = gli"
| "focusByKey name i (pv # pvs) gli =
     (if Key pv = name
      then (SetFocus (Primitive pv) gli)\<lparr>currentFocusIndex := int i\<rparr>
      else focusByKey name (Suc i) pvs gli)"

definition command_toggle :: "RedisGli \<Rightarrow> RedisGli" where
  "command_toggle gli =
     (if commandMode gli
      then (SetFocus P_searchPanel (redrawRightPanel P_mainPanel (gli\<lparr>commandMode := False\<rparr>)))
             \<lparr>currentFocusIndex := 0\<rparr>
      else (let gli' = redrawRightPanel P_commandPanel (gli\<lparr>commandMode := True\<rparr>)
            in focusCommandForm 0 (focusPrimitives gli') gli'))"

text \<open>
  The function given to \<open>SetInputCapture\<close>. \<open>ord\<close> is the order in which this call of
  \<open>SearchKey\<close> ranges over the map. The result carries the event that is passed on to the
  focused widget: \<open>None\<close> for \<open>return nil\<close>.
\<close>

definition InputCapture ::
  "(Key \<Rightarrow> string) \<Rightarrow> KeyBindings \<Rightarrow> Key \<Rightarrow> RedisGli \<Rightarrow> panic + (RedisGli \<times> Key option)" where
  "InputCapture names ord k gli0 =
     (let gli = (if Debug (config gli0)
                 then send ColorZero (''Key '' @ names k @ '' pressed'') gli0 else gli0);
          name = SearchKey ord k
      in if name = ''switch_focus'' then
           (case switch_focus gli of Inl e \<Rightarrow> Inl e | Inr gli' \<Rightarrow> Inr (gli', None))
         else if name = ''quit'' then Inr (gli\<lparr>stopped := True\<rparr>, Some k)
         else if name = ''command'' then Inr (command_toggle gli, Some k)
         else Inr (focusByKey name 0 (focusPrimitives gli) gli, Some k))"

section \<open>The command panel (gui.go, lines 282-349)\<close>

text \<open>
  The function given to \<open>formPanel.SetDoneFunc\<close>. While \<open>locked\<close> is set it only adds the
  modal page \<open>alert\<close>. Otherwise it reports the command, sets \<open>locked\<close>, starts the
  goroutine, whose only action is to queue an update for the UI thread, and clears the
  input field.
\<close>

definition commandDoneFunc :: "Key \<Rightarrow> RedisGli \<Rightarrow> panic + RedisGli" where
  "commandDoneFunc key gli =
     (if key \<noteq> KeyEnter then Inr gli
      else if locked gli then
        (case pages gli of
           None \<Rightarrow> Inl NilPointerDereference
         | Some ps \<Rightarrow> Inr (gli\<lparr>pages := Some (AddPage ''alert'' ps)\<rparr>))
      else
        (let cmdText = commandFormPanel gli;
             gli1 = send ColorOrange (''Command '' @ cmdText @ '' is processing...'') gli;
             gli2 = gli1\<lparr>locked := True\<rparr>;
             gli3 = gli2\<lparr>updates := updates gli2 @ [cmdText]\<rparr>
         in Inr (gli3\<lparr>commandFormPanel := ''''\<rparr>)))"

text \<open>The function given to the modal's \<open>SetDoneFunc\<close>: the button of the notice.\<close>

definition alertDoneFunc :: "RedisGli \<Rightarrow> panic + RedisGli" where
  "alertDoneFunc gli =
     (case pages gli of
        None \<Rightarrow> Inl NilPointerDereference
      | Some ps \<Rightarrow> Inr (SetFocus P_commandFormPanel (gli\<lparr>pages := Some (RemovePage ''alert'' ps)\<rparr>)))"

text \<open>
  The update that the goroutine queues: it runs the command on the store, reports the
  outcome, and releases \<open>locked\<close> on every path (the deferred function).
\<close>

definition commandUpdate :: "RedisClient \<Rightarrow> string \<Rightarrow> RedisGli \<Rightarrow> RedisGli" where
  "commandUpdate rc cmdText gli =
     (let gli1 = request (CallExecute cmdText) gli
      in case rc_Execute rc cmdText of
           Inl err \<Rightarrow> (send ColorRed (''errors: '' @ err) gli1)\<lparr>locked := False\<rparr>
         | Inr res \<Rightarrow>
             (send ColorGreen (''Command '' @ cmdText @ '' succeed'')
                (gli1\<lparr>commandResultPanel := res\<rparr>))\<lparr>locked := False\<rparr>)"

text \<open>The UI thread takes the oldest queued update and runs it.\<close>

definition runUpdate :: "RedisClient \<Rightarrow> RedisGli \<Rightarrow> RedisGli" where
  "runUpdate rc gli =
     (case updates gli of
        [] \<Rightarrow> gli
      | cmdText # rest \<Rightarrow> commandUpdate rc cmdText (gli\<lparr>updates := rest\<rparr>))"

section \<open>The search panel (gui.go, lines 278-280 and 351-383)\<close>

definition keyItemsFormat :: "nat \<Rightarrow> string \<Rightarrow> string" where
  "keyItemsFormat index key = fmt_3d (int index + 1) @ '' | '' @ key"

definition showKeys :: "string list \<Rightarrow> RedisGli \<Rightarrow> RedisGli" where
  "showKeys keys gli =
     gli\<lparr>summaryPanel := '' Total matched: '' @ fmt_d (int (length keys)),
         keyItemsPanel := keyItemsPanel gli @
            map (\<lambda>(i, k). (keyItemsFormat i k, i, k)) (enumerate 0 keys)\<rparr>"

definition searchDoneFunc :: "RedisClient \<Rightarrow> Key \<Rightarrow> RedisGli \<Rightarrow> RedisGli" where
  "searchDoneFunc rc key gli =
     (if key \<noteq> KeyEnter then gli
      else
        (let text = searchPanel gli;
             (res, gli1) =
               (if text = '''' \<or> text = ''*''
                then (map_sum id fst (rc_Scan rc 0 text (maxKeyLimit gli)),
                      request (CallScan 0 text (maxKeyLimit gli)) gli)
                else (rc_Keys rc text, request (CallKeys text) gli))
         in case res of
              Inl err \<Rightarrow> send ColorRed (''errors: '' @ err) gli1
            | Inr keys \<Rightarrow> showKeys keys (gli1\<lparr>keyItemsPanel := []\<rparr>)))"

section \<open>The key-selected handler (gui.go, lines 392-402 and 453-584)\<close>

fun primitivesFilter :: "primitiveKey list \<Rightarrow> (primitiveKey \<Rightarrow> bool) \<Rightarrow> primitiveKey list" where
  "primitivesFilter [] keep = []"
| "primitivesFilter (item # items) keep =
     (if keep item then item # primitivesFilter items keep else primitivesFilter items keep)"

text \<open>Lines 480-494: the detail views are emptied and taken out of ring and panel.\<close>

definition resetViews :: "RedisGli \<Rightarrow> RedisGli" where
  "resetViews gli =
     (let gli1 = gli\<lparr>mainPanel := RemoveItem P_welcomeScreen (mainPanel gli),
                     mainPanelBorder := False\<rparr>;
          gli2 = gli1\<lparr>mainHashView := [], mainStringView := '''', mainListView := [],
                      mainListViewSecondary := False\<rparr>;
          gli3 = gli2\<lparr>focusPrimitives :=
                   primitivesFilter (focusPrimitives gli2)
                     (\<lambda>item. Primitive item \<noteq> P_mainHashView \<and> Primitive item \<noteq> P_mainListView
                            \<and> Primitive item \<noteq> P_mainStringView)\<rparr>
      in gli3\<lparr>mainPanel := RemoveItem P_mainListView (RemoveItem P_mainHashView
                 (RemoveItem P_mainStringView (mainPanel gli3)))\<rparr>)"

text \<open>The rows of the list view: \<open>fmt.Sprintf(" %3d | %s", i+1, v)\<close> for every element.\<close>

definition listRow :: "nat \<Rightarrow> string \<Rightarrow> string" where
  "listRow i v = '' '' @ fmt_3d (int i + 1) @ '' | '' @ v"

definition listRows :: "string list \<Rightarrow> (string \<times> string) list" where
  "listRows vals = map (\<lambda>(i, v). (listRow i v, '''')) (enumerate 0 vals)"

definition zsetRows :: "(string \<times> string) list \<Rightarrow> (string \<times> string) list" where
  "zsetRows vals =
     map (\<lambda>(i, member, score). (listRow i member, ''    Score: '' @ score)) (enumerate 0 vals)"

definition hashRows :: "string \<Rightarrow> string list \<Rightarrow> (string \<times> string \<times> string) list" where
  "hashRows key hashKeys = map (\<lambda>(i, k). (listRow i k, key, k)) (enumerate 0 hashKeys)"

definition showListView :: "(string \<times> string) list \<Rightarrow> RedisGli \<Rightarrow> RedisGli" where
  "showListView rows gli =
     appendFocus P_mainListView ''key_list_value''
       (gli\<lparr>mainListView := mainListView gli @ rows,
            mainPanel := AddItem P_mainListView (mainPanel gli)\<rparr>)"

text \<open>Lines 580-581: the report of success and the metadata text.\<close>

definition selectionDone :: "string \<Rightarrow> string \<Rightarrow> string \<Rightarrow> RedisGli \<Rightarrow> RedisGli" where
  "selectionDone key keyType ttl gli =
     (send ColorGreen (''query '' @ key @ '' OK, type='' @ keyType @ '', ttl='' @ ttl) gli)
       \<lparr>metaPanel := ''KeyID: '' @ key @ [CHR 0x0A] @ ''Type: '' @ keyType @ '', TTL: '' @ ttl\<rparr>"

text \<open>Lines 497-579: the branch of the \<open>switch\<close> for the key's type.\<close>

definition showValue :: "RedisClient \<Rightarrow> string \<Rightarrow> string \<Rightarrow> string \<Rightarrow> RedisGli \<Rightarrow> RedisGli" where
  "showValue rc key keyType ttl gli =
     (if keyType = ''string'' then
        (case rc_Get rc key of
           Inl err \<Rightarrow> send ColorRed (''errors: '' @ err) (request (CallGet key) gli)
         | Inr result \<Rightarrow>
             selectionDone key keyType ttl
               (appendFocus P_mainStringView ''key_string_value''
                 ((request (CallGet key) gli)
                    \<lparr>mainStringView := '' '' @ result,
                     mainPanel := AddItem P_mainStringView (mainPanel gli)\<rparr>)))
      else if keyType = ''list'' then
        (case rc_LRange rc key 0 1000 of
           Inl err \<Rightarrow> send ColorRed (''errors: '' @ err) (request (CallLRange key 0 1000) gli)
         | Inr vals \<Rightarrow>
             selectionDone key keyType ttl
               (showListView (listRows vals) (request (CallLRange key 0 1000) gli)))
      else if keyType = ''set'' then
        (case rc_SMembers rc key of
           Inl err \<Rightarrow> send ColorRed (''errors: '' @ err) (request (CallSMembers key) gli)
         | Inr vals \<Rightarrow>
             selectionDone key keyType ttl
               (showListView (listRows vals) (request (CallSMembers key) gli)))
      else if keyType = ''zset'' then
        (case rc_ZRangeWithScores rc key 0 1000 of
           Inl err \<Rightarrow>
             send ColorRed (''errors: '' @ err) (request (CallZRangeWithScores key 0 1000) gli)
         | Inr vals \<Rightarrow>
             selectionDone key keyType ttl
               (showListView (zsetRows vals)
                  ((request (CallZRangeWithScores key 0 1000) gli)
                     \<lparr>mainListViewSecondary := True\<rparr>)))
      else if keyType = ''hash'' then
        (case rc_HKeys rc key of
           Inl err \<Rightarrow> send ColorRed (''errors: '' @ err) (request (CallHKeys key) gli)
         | Inr hashKeys \<Rightarrow>
             selectionDone key keyType ttl
               (appendFocus P_mainStringView ''key_string_value''
               (appendFocus P_mainHashView ''key_hash''
                 ((request (CallHKeys key) gli)
                    \<lparr>mainHashView := mainHashView gli @ hashRows key hashKeys,
                     mainPanel := AddItem P_mainStringView
                                    (AddItem P_mainHashView (mainPanel gli))\<rparr>))))
      else selectionDone key keyType ttl gli)"

text \<open>
  The handler that \<open>createKeySelectedHandler\<close> returns for an item of the key list. The
  type and the time to live are fetched first; an error of either returns before
  anything is changed. The views are reset before the value is fetched.
\<close>

definition itemSelectedHandler :: "RedisClient \<Rightarrow> nat \<Rightarrow> string \<Rightarrow> RedisGli \<Rightarrow> RedisGli" where
  "itemSelectedHandler rc index key gli =
     (case rc_Type rc key of
        Inl err \<Rightarrow> send ColorRed (''errors: '' @ err) (request (CallType key) gli)
      | Inr keyType \<Rightarrow>
          (case rc_TTL rc key of
             Inl err \<Rightarrow>
               send ColorRed (''errors: '' @ err) (request (CallTTL key) (request (CallType key) gli))
           | Inr ttl \<Rightarrow>
               showValue rc key keyType ttl
                 (resetViews (request (CallTTL key) (request (CallType key) gli)))))"

text \<open>The handler of an item of the hash view: it fetches the value of one subfield.\<close>

definition hashItemSelected :: "RedisClient \<Rightarrow> string \<Rightarrow> string \<Rightarrow> RedisGli \<Rightarrow> RedisGli" where
  "hashItemSelected rc key k gli =
     (case rc_HGet rc key k of
        Inl err \<Rightarrow> send ColorRed (''errors: '' @ err) (request (CallHGet key k) gli)
      | Inr val \<Rightarrow>
          (request (CallHGet key k) gli)
            \<lparr>mainStringView := '' '' @ val, mainStringViewTitle := '' Value: '' @ k @ '' ''\<rparr>)"

section \<open>Start (gui.go, lines 201-257)\<close>

text \<open>
  The first update that \<open>Start\<close> queues: the server information and the initial scan.
  An error of the server information is reported and the update goes on.
\<close>

definition initialLoad :: "RedisClient \<Rightarrow> RedisGli \<Rightarrow> RedisGli" where
  "initialLoad rc gli =
     (let gli1 = request CallServerInfo gli;
          gli2 = (case snd (rc_ServerInfo rc) of
                    None \<Rightarrow> gli1
                  | Some err \<Rightarrow> send ColorRed (''errors: '' @ err) gli1);
          gli3 = gli2\<lparr>helpServerInfoPanel := fst (rc_ServerInfo rc)\<rparr>;
          gli4 = request (CallScan 0 ''*'' (maxKeyLimit gli3)) gli3
      in case rc_Scan rc 0 ''*'' (maxKeyLimit gli3) of
           Inl err \<Rightarrow> send ColorRed (''errors: '' @ err) gli4
         | Inr (keys, cursor) \<Rightarrow> SetFocus P_keyItemsPanel (showKeys keys gli4))"

text \<open>
  \<open>Start\<close> creates the pages with the page \<open>base\<close> and runs the event loop, which applies
  the queued first update. The periodic refresh and the loop that copies the messages of
  the channel to the output panel run on timers and goroutines and are left out.
\<close>

definition Start :: "RedisClient \<Rightarrow> RedisGli \<Rightarrow> RedisGli" where
  "Start rc gli = initialLoad rc (gli\<lparr>pages := Some (AddPage ''base'' [])\<rparr>)"

section \<open>Events of the user interface\<close>

text \<open>
  Everything runs on the UI thread, one handler at a time: the application is started, a
  key reaches the global input dispatcher, the user edits an input field, a handler of a
  widget is called, or the thread applies the oldest queued update. A store client comes
  with every event that calls the store: what the store answers at that moment.
\<close>

datatype Event =
    StartUp RedisClient
  | KeyPress KeyBindings Key
  | EditSearch string
  | SearchDone RedisClient Key
  | ItemSelected RedisClient nat string
  | HashItemSelected RedisClient string string
  | EditCommand string
  | CommandDone Key
  | AlertDone
  | RunUpdate RedisClient

fun step :: "(Key \<Rightarrow> string) \<Rightarrow> Event \<Rightarrow> RedisGli \<Rightarrow> panic + RedisGli" where
  "step names (StartUp rc) gli = Inr (Start rc gli)"
| "step names (KeyPress ord k) gli = map_sum id fst (InputCapture names ord k gli)"
| "step names (EditSearch t) gli = Inr (gli\<lparr>searchPanel := t\<rparr>)"
| "step names (SearchDone rc k) gli = Inr (searchDoneFunc rc k gli)"
| "step names (ItemSelected rc i key) gli = Inr (itemSelectedHandler rc i key gli)"
| "step names (HashItemSelected rc key k) gli = Inr (hashItemSelected rc key k gli)"
| "step names (EditCommand t) gli = Inr (gli\<lparr>commandFormPanel := t\<rparr>)"
| "step names (CommandDone k) gli = commandDoneFunc k gli"
| "step names AlertDone gli = alertDoneFunc gli"
| "step names (RunUpdate rc) gli = Inr (runUpdate rc gli)"

fun run :: "(Key \<Rightarrow> string) \<Rightarrow> Event list \<Rightarrow> RedisGli \<Rightarrow> panic + RedisGli" where
  "run names [] gli = Inr gli"
| "run names (e # es) gli =
     (case step names e gli of Inl p \<Rightarrow> Inl p | Inr gli' \<Rightarrow> run names es gli')"

text \<open>A command submission: the user enters the text in the command field and presses Enter.\<close>

definition submissions :: "string list \<Rightarrow> Event list" where
  "submissions texts = concat (map (\<lambda>t. [EditCommand t, CommandDone KeyEnter]) texts)"

text \<open>The key Tab pressed once for every traversal order in the list.\<close>

definition tabs :: "KeyBindings list \<Rightarrow> Event list" where
  "tabs ords = map (\<lambda>ord. KeyPress ord KeyTab) ords"

section \<open>The focus ring\<close>


text \<open>
  The shape of the layout in every state that the events lead to: the ring begins with the
  five entries that the constructor appends, every later entry belongs to a detail view,
  and the right panel holds nothing but the five widgets that \<open>redrawRightPanel\<close> handles.
\<close>

definition baseRing :: "primitiveKey list" where
  "baseRing =
     [\<lparr>Primitive = P_outputPanel, Key = ''output''\<rparr>,
      \<lparr>Primitive = P_commandFormPanel, Key = ''command_focus''\<rparr>,
      \<lparr>Primitive = P_commandResultPanel, Key = ''command_result''\<rparr>,
      \<lparr>Primitive = P_searchPanel, Key = ''search''\<rparr>,
      \<lparr>Primitive = P_keyItemsPanel, Key = ''keys''\<rparr>]"

definition detailView :: "Primitive \<Rightarrow> bool" where
  "detailView p = (p = P_mainHashView \<or> p = P_mainListView \<or> p = P_mainStringView)"

definition layoutInv :: "RedisGli \<Rightarrow> bool" where
  "layoutInv gli =
     (take 5 (focusPrimitives gli) = baseRing
      \<and> list_all (\<lambda>pk. detailView (Primitive pk)) (drop 5 (focusPrimitives gli))
      \<and> list_all (\<lambda>p. p \<in> set [P_helpPanel, P_metaPanel, P_mainPanel, P_commandPanel, P_outputPanel])
           (rightPanel gli))"




section \<open>A store for the examples\<close>

text \<open>
  The range commands of the store (\<open>LRANGE\<close>, \<open>ZRANGE\<close>) take zero-based positions and
  include both ends; a negative position counts from the end, and positions beyond the
  end are cut to it. This is the store's documented behaviour, not code of the program.
\<close>

definition store_range :: "'a list \<Rightarrow> int \<Rightarrow> int \<Rightarrow> 'a list" where
  "store_range xs start stop =
     (let n = int (length xs);
          s = (if start < 0 then max 0 (n + start) else start);
          e = (if stop < 0 then n + stop else min stop (n - 1))
      in if e < s \<or> n \<le> s then [] else take (nat (e - s + 1)) (drop (nat s) xs))"

text \<open>The values a key of the example store can hold.\<close>

datatype StoreValue =
    VString string
  | VList "string list"
  | VSet "string list"
  | VZSet "(string \<times> string) list"
  | VHash "(string \<times> string) list"
  | VBroken string

fun typeName :: "StoreValue \<Rightarrow> string" where
  "typeName (VString s) = ''string''"
| "typeName (VList xs) = ''list''"
| "typeName (VSet xs) = ''set''"
| "typeName (VZSet zs) = ''zset''"
| "typeName (VHash fs) = ''hash''"
| "typeName (VBroken t) = t"

text \<open>
  A client of a store with the given keys, none of which expires (time to live \<open>-1ns\<close>).
  A fetch from a key of another type or from a missing key gives the store's error text,
  as does every fetch of the value of a \<open>VBroken\<close> key, which stands for a key whose
  type and time to live arrive and whose value does not (the connection is lost in
  between). The patterns of the examples match every key; the scan returns at most
  \<open>count\<close> keys.
\<close>

definition storeClient :: "(string \<times> StoreValue) list \<Rightarrow> RedisClient" where
  "storeClient db =
     \<lparr>rc_Type = (\<lambda>key. case map_of db key of None \<Rightarrow> Inr ''none'' | Some v \<Rightarrow> Inr (typeName v)),
      rc_TTL = (\<lambda>key. Inr ''-1ns''),
      rc_Get = (\<lambda>key. case map_of db key of Some (VString s) \<Rightarrow> Inr s | _ \<Rightarrow> Inl ''redis: nil''),
      rc_LRange = (\<lambda>key start stop. case map_of db key of
                     Some (VList xs) \<Rightarrow> Inr (store_range xs start stop)
                   | Some (VBroken t) \<Rightarrow> Inl ''EOF''
                   | _ \<Rightarrow> Inl ''WRONGTYPE''),
      rc_SMembers = (\<lambda>key. case map_of db key of
                     Some (VSet xs) \<Rightarrow> Inr xs
                   | Some (VBroken t) \<Rightarrow> Inl ''EOF''
                   | _ \<Rightarrow> Inl ''WRONGTYPE''),
      rc_ZRangeWithScores = (\<lambda>key start stop. case map_of db key of
                     Some (VZSet zs) \<Rightarrow> Inr (store_range zs start stop)
                   | Some (VBroken t) \<Rightarrow> Inl ''EOF''
                   | _ \<Rightarrow> Inl ''WRONGTYPE''),
      rc_HKeys = (\<lambda>key. case map_of db key of
                     Some (VHash fs) \<Rightarrow> Inr (map fst fs)
                   | Some (VBroken t) \<Rightarrow> Inl ''EOF''
                   | _ \<Rightarrow> Inl ''WRONGTYPE''),
      rc_HGet = (\<lambda>key k. case map_of db key of
                     Some (VHash fs) \<Rightarrow>
                       (case map_of fs k of None \<Rightarrow> Inl ''redis: nil'' | Some v \<Rightarrow> Inr v)
                   | _ \<Rightarrow> Inl ''WRONGTYPE''),
      rc_Scan = (\<lambda>cursor pattern count. Inr (take (nat count) (map fst db), 0)),
      rc_Keys = (\<lambda>pattern. Inr (map fst db)),
      rc_Execute = (\<lambda>cmdText. Inr ''OK''),
      rc_ServerInfo = (''redis'', None)\<rparr>"

section \<open>Example states\<close>

text \<open>
  A store with the scalar key \<open>a\<close>, the list key \<open>b\<close>, a hash key and a key whose value
  cannot be fetched; the application constructed for it and started; and the same
  application after the command \<open>PING\<close> has been submitted and before its queued update
  has run.
\<close>

definition demoNames :: "Key \<Rightarrow> string" where
  "demoNames k = ''key''"

definition demoDb :: "(string \<times> StoreValue) list" where
  "demoDb =
     [ (''a'', VString ''hello''),
       (''b'', VList [''x'', ''y'', ''z'']),
       (''h'', VHash [(''f'', ''1''), (''g'', ''2'')]),
       (''broken'', VBroken ''list'') ]"

definition demoGli :: RedisGli where
  "demoGli = projr (NewRedisGli demoNames 10 ''1.0'' ''0123456789abcdef'' \<lparr>Debug = False\<rparr>)"

definition demoStarted :: RedisGli where
  "demoStarted = Start (storeClient demoDb) demoGli"

definition demoRunning :: RedisGli where
  "demoRunning = projr (run demoNames (submissions [''PING'']) demoStarted)"

text \<open>A ranked set of 1001 members, the numerals \<open>0\<close> to \<open>1000\<close>, each with the score 1.\<close>

definition demoRanked :: "(string \<times> string) list" where
  "demoRanked = map (\<lambda>n. (digits n, ''1'')) [0..<1001]"

section \<open>Properties of the key bindings\<close>

lemma SearchKey_unique:
  "(name, bind) \<in> set ord \<Longrightarrow> k \<in> set bind \<Longrightarrow>
   (\<forall>(n', b') \<in> set ord. k \<in> set b' \<longrightarrow> n' = name) \<Longrightarrow> SearchKey ord k = name"
  by (induction ord) auto

lemma SearchKey_hit:
  "(name, bind) \<in> set ord \<Longrightarrow> k \<in> set bind \<Longrightarrow>
   \<exists>b'. (SearchKey ord k, b') \<in> set ord \<and> k \<in> set b'"
  by (induction ord) auto

lemma traversal_set: "traversal_of kb ord \<Longrightarrow> set ord = set kb"
  by (auto simp: traversal_of_def dest: mset_eq_setD)

lemma owners_iff:
  "(\<exists>b. (n, b) \<in> set kb \<and> k \<in> set b) \<longleftrightarrow> n \<in> set (map fst (filter (\<lambda>nb. k \<in> set (snd nb)) kb))"
  by (induction kb) auto

lemma owners_keyBindings:
  "map fst (filter (\<lambda>nb. k \<in> set (snd nb)) keyBindings) =
     (case k of
        KeyF1 \<Rightarrow> [''command''] | KeyF2 \<Rightarrow> [''search''] | KeyF3 \<Rightarrow> [''keys'']
      | KeyF4 \<Rightarrow> [''command_focus''] | KeyF5 \<Rightarrow> [''command_result'']
      | KeyF6 \<Rightarrow> [''key_list_value'', ''key_hash''] | KeyF7 \<Rightarrow> [''key_string_value'']
      | KeyF9 \<Rightarrow> [''output'']
      | KeyCtrlS \<Rightarrow> [''search''] | KeyCtrlK \<Rightarrow> [''keys'']
      | KeyCtrlY \<Rightarrow> [''key_list_value'', ''key_hash''] | KeyCtrlA \<Rightarrow> [''key_string_value'']
      | KeyCtrlO \<Rightarrow> [''output''] | KeyCtrlN \<Rightarrow> [''command'']
      | KeyCtrlF \<Rightarrow> [''command_focus''] | KeyCtrlR \<Rightarrow> [''command_result'']
      | KeyCtrlQ \<Rightarrow> [''quit''] | KeyEsc \<Rightarrow> [''quit''] | KeyTab \<Rightarrow> [''switch_focus'']
      | KeyEnter \<Rightarrow> [] | KeyOther n \<Rightarrow> [])"
  by (cases k) (simp_all add: keyBindings_def)

lemma owners_unshared:
  assumes "n \<in> set (map fst (filter (\<lambda>nb. k \<in> set (snd nb)) keyBindings))"
    and "n' \<in> set (map fst (filter (\<lambda>nb. k \<in> set (snd nb)) keyBindings))"
    and "n \<noteq> ''key_list_value''" and "n \<noteq> ''key_hash''"
  shows "n' = n"
  using assms unfolding owners_keyBindings by (cases k) simp_all

lemma owners_shared:
  assumes "n \<in> set (map fst (filter (\<lambda>nb. k \<in> set (snd nb)) keyBindings))"
    and "n' \<in> set (map fst (filter (\<lambda>nb. k \<in> set (snd nb)) keyBindings))"
    and "n = ''key_list_value'' \<or> n = ''key_hash''"
  shows "n' = ''key_list_value'' \<or> n' = ''key_hash''"
  using assms unfolding owners_keyBindings by (cases k) auto

text \<open>
  The codes F6 and Ctrl-Y are bound to two actions. Whatever the order of the traversal,
  one of the two actions is not the one that its own code resolves to.
\<close>

lemma SearchKey_shared_code:
  "\<exists>name bind k. (name, bind) \<in> set keyBindings \<and> k \<in> set bind \<and> SearchKey ord k \<noteq> name"
proof (cases "SearchKey ord KeyF6 = ''key_hash''")
  case True
  have "(''key_list_value'', [KeyF6, KeyCtrlY]) \<in> set keyBindings
        \<and> KeyF6 \<in> set [KeyF6, KeyCtrlY] \<and> SearchKey ord KeyF6 \<noteq> ''key_list_value''"
    using True by (simp add: keyBindings_def)
  then show ?thesis by (intro exI)
next
  case False
  have "(''key_hash'', [KeyF6, KeyCtrlY]) \<in> set keyBindings
        \<and> KeyF6 \<in> set [KeyF6, KeyCtrlY] \<and> SearchKey ord KeyF6 \<noteq> ''key_hash''"
    using False by (simp add: keyBindings_def)
  then show ?thesis by (intro exI)
qed

lemma SearchKey_resolves:
  assumes "traversal_of keyBindings ord"
    and "(name, bind) \<in> set keyBindings"
    and "k \<in> set bind"
  shows "(name \<noteq> ''key_list_value'' \<and> name \<noteq> ''key_hash'' \<longrightarrow> SearchKey ord k = name) \<and>
         (name = ''key_list_value'' \<or> name = ''key_hash'' \<longrightarrow>
            SearchKey ord k = ''key_list_value'' \<or> SearchKey ord k = ''key_hash'')"
proof -
  let ?owners = "map fst (filter (\<lambda>nb. k \<in> set (snd nb)) keyBindings)"
  have s: "set ord = set keyBindings"
    using assms(1) by (rule traversal_set)
  have in_ord: "(name, bind) \<in> set ord"
    using assms(2) s by simp
  have own: "name \<in> set ?owners"
    using assms(2,3) owners_iff[of name keyBindings k] by blast
  have a: "SearchKey ord k = name" if nl: "name \<noteq> ''key_list_value''" and nh: "name \<noteq> ''key_hash''"
  proof (rule SearchKey_unique[OF in_ord assms(3)])
    have "n' = name" if "(n', b') \<in> set keyBindings" "k \<in> set b'" for n' b'
    proof -
      have np: "n' \<in> set ?owners"
        using that owners_iff[of n' keyBindings k] by blast
      show ?thesis
        by (rule owners_unshared[OF own np nl nh])
    qed
    then show "\<forall>(n', b')\<in>set ord. k \<in> set b' \<longrightarrow> n' = name"
      unfolding s by blast
  qed
  have b: "SearchKey ord k = ''key_list_value'' \<or> SearchKey ord k = ''key_hash''"
    if sh: "name = ''key_list_value'' \<or> name = ''key_hash''"
  proof -
    obtain b' where "(SearchKey ord k, b') \<in> set keyBindings" "k \<in> set b'"
      using SearchKey_hit[OF in_ord assms(3)] s by auto
    then have sk: "SearchKey ord k \<in> set ?owners"
      using owners_iff[of "SearchKey ord k" keyBindings k] by blast
    show ?thesis
      by (rule owners_shared[OF own sk sh])
  qed
  show ?thesis using a b by blast
qed

lemma SearchKey_Tab:
  assumes "traversal_of keyBindings ord"
  shows "SearchKey ord KeyTab = ''switch_focus''"
proof -
  have "(''switch_focus'', [KeyTab]) \<in> set keyBindings"
    by (simp add: keyBindings_def)
  then show ?thesis
    using SearchKey_resolves[OF assms, of "''switch_focus''" "[KeyTab]" KeyTab] by simp
qed

lemma SearchKey_command:
  assumes "traversal_of keyBindings ord" and "k \<in> set (Keys keyBindings ''command'')"
  shows "SearchKey ord k = ''command''"
proof -
  have "(''command'', [KeyF1, KeyCtrlN]) \<in> set keyBindings"
    by (simp add: keyBindings_def)
  moreover have "k \<in> set [KeyF1, KeyCtrlN]"
    using assms(2) by (simp add: Keys_def keyBindings_def)
  ultimately show ?thesis
    using SearchKey_resolves[OF assms(1), of "''command''" "[KeyF1, KeyCtrlN]" k] by simp
qed

section \<open>Properties of the construction\<close>

lemmas construct_defs =
  NewRedisGli_def appendFocus_def redrawRightPanel_def createCommandPanel_def
  createKeySelectedHandler_def createOutputPanel_def createMainPanel_def
  AddItem_def RemoveItem_def KeyID_def

text \<open>
  \<^bold>\<open>C9\<close>. \<open>NewRedisGli\<close> takes the first eight bytes of \<open>gitCommit\<close> before it builds
  anything: with fewer than eight bytes the construction panics and there is no state;
  with eight or more it returns a state that holds exactly the first eight.
\<close>

theorem NewRedisGli_gitCommit_length:
  "(length g < 8 \<longrightarrow> NewRedisGli names m v g c = Inl SliceBoundsOutOfRange) \<and>
   (8 \<le> length g \<longrightarrow>
      (\<exists>gli. NewRedisGli names m v g c = Inr gli \<and> gitCommit gli = take 8 g))"
  by (simp add: construct_defs)

theorem NewRedisGli_gitCommit_length_witness:
  "NewRedisGli (\<lambda>k. '''') 10 ''1.0'' ''abc1234'' \<lparr>Debug = False\<rparr> = Inl SliceBoundsOutOfRange \<and>
   (\<exists>gli. NewRedisGli (\<lambda>k. '''') 10 ''1.0'' ''0123456789'' \<lparr>Debug = False\<rparr> = Inr gli
          \<and> gitCommit gli = ''01234567'')"
  using NewRedisGli_gitCommit_length[of "''abc1234''" "\<lambda>k. ''''" 10 "''1.0''" "\<lparr>Debug = False\<rparr>"]
    NewRedisGli_gitCommit_length[of "''0123456789''" "\<lambda>k. ''''" 10 "''1.0''" "\<lparr>Debug = False\<rparr>"]
  by simp

section \<open>The example states, evaluated\<close>

lemma demoGli: "NewRedisGli demoNames 10 ''1.0'' ''0123456789abcdef'' \<lparr>Debug = False\<rparr> = Inr demoGli"
  by (simp add: demoGli_def NewRedisGli_def)

lemma demoGli_fields:
  "locked demoGli = False" "updates demoGli = []" "pages demoGli = None" "calls demoGli = []"
  "commandMode demoGli = False" "currentFocusIndex demoGli = 0" "outputChan demoGli = []"
  "focusPrimitives demoGli =
     [\<lparr>Primitive = P_outputPanel, Key = ''output''\<rparr>,
      \<lparr>Primitive = P_commandFormPanel, Key = ''command_focus''\<rparr>,
      \<lparr>Primitive = P_commandResultPanel, Key = ''command_result''\<rparr>,
      \<lparr>Primitive = P_searchPanel, Key = ''search''\<rparr>,
      \<lparr>Primitive = P_keyItemsPanel, Key = ''keys''\<rparr>]"
  "rightPanel demoGli = [P_helpPanel, P_metaPanel, P_mainPanel, P_outputPanel]"
  "mainPanel demoGli = [P_welcomeScreen]" "maxKeyLimit demoGli = 10"
  "config demoGli = \<lparr>Debug = False\<rparr>"
  "mainStringView demoGli = ''''" "mainHashView demoGli = []" "mainListView demoGli = []"
  by (simp_all add: demoGli_def construct_defs)

lemma demoStarted_fields:
  "locked demoStarted = False" "updates demoStarted = []" "pages demoStarted = Some [''base'']"
  "focusPrimitives demoStarted = focusPrimitives demoGli"
  "currentFocusIndex demoStarted = 0" "commandMode demoStarted = False"
  "rightPanel demoStarted = rightPanel demoGli" "mainPanel demoStarted = mainPanel demoGli"
  "calls demoStarted = [CallServerInfo, CallScan 0 ''*'' 10]"
  "outputChan demoStarted = []" "config demoStarted = \<lparr>Debug = False\<rparr>"
  "mainStringView demoStarted = ''''" "mainHashView demoStarted = []"
  "mainListView demoStarted = []" "commandFormPanel demoStarted = ''''"
  by (simp_all add: demoStarted_def Start_def initialLoad_def Let_def request_def send_def
      storeClient_def showKeys_def SetFocus_def AddPage_def demoGli_fields)
     (simp_all add: demoGli_def construct_defs)

lemma demoRunning:
  "run demoNames (submissions [''PING'']) demoStarted = Inr demoRunning"
  by (simp add: demoRunning_def submissions_def commandDoneFunc_def Let_def demoStarted_fields)

lemma demoRunning_fields:
  "locked demoRunning = True" "updates demoRunning = [''PING'']"
  "pages demoRunning = Some [''base'']" "calls demoRunning = [CallServerInfo, CallScan 0 ''*'' 10]"
  "outputChan demoRunning = [\<lparr>Color = ColorOrange, Message = ''Command PING is processing...''\<rparr>]"
  by (simp_all add: demoRunning_def submissions_def commandDoneFunc_def send_def Let_def
      demoStarted_fields)

section \<open>The command gate\<close>

lemma AddPage_idem: "AddPage n (AddPage n ps) = AddPage n ps"
  by (simp add: AddPage_def)

lemma AddPage_mem: "n \<in> set (AddPage n ps)"
  by (simp add: AddPage_def)

lemma run_append:
  "run names (es @ fs) gli =
     (case run names es gli of Inl p \<Rightarrow> Inl p | Inr gli' \<Rightarrow> run names fs gli')"
  by (induction es arbitrary: gli) (auto split: sum.splits)

text \<open>A submission that finds the gate open sets the lock and queues exactly its own text.\<close>

lemma commandDoneFunc_idle:
  "\<not> locked gli \<Longrightarrow>
   commandDoneFunc KeyEnter gli =
     Inr (gli\<lparr>outputChan := outputChan gli @
                 [\<lparr>Color = ColorOrange,
                   Message = ''Command '' @ commandFormPanel gli @ '' is processing...''\<rparr>],
              locked := True, updates := updates gli @ [commandFormPanel gli],
              commandFormPanel := ''''\<rparr>)"
  by (simp add: commandDoneFunc_def send_def Let_def)

text \<open>The queued update releases the lock whatever the store answers.\<close>

lemma commandUpdate_unlocks: "\<not> locked (commandUpdate rc cmdText gli)"
  by (simp add: commandUpdate_def Let_def split: sum.splits)

lemma submissions_locked:
  "locked gli \<Longrightarrow> pages gli = Some ps \<Longrightarrow> texts \<noteq> [] \<Longrightarrow>
   run names (submissions texts) gli =
     Inr (gli\<lparr>commandFormPanel := last texts, pages := Some (AddPage ''alert'' ps)\<rparr>)"
proof (induction texts arbitrary: gli ps)
  case Nil
  then show ?case by simp
next
  case (Cons t ts)
  let ?g = "gli\<lparr>commandFormPanel := t, pages := Some (AddPage ''alert'' ps)\<rparr>"
  have first: "run names (submissions (t # ts)) gli = run names (submissions ts) ?g"
    using Cons.prems(1,2) by (simp add: submissions_def commandDoneFunc_def)
  show ?case
  proof (cases "ts = []")
    case True
    then show ?thesis using first by (simp add: submissions_def)
  next
    case False
    have "run names (submissions ts) ?g =
            Inr (?g\<lparr>commandFormPanel := last ts,
                     pages := Some (AddPage ''alert'' (AddPage ''alert'' ps))\<rparr>)"
      using Cons.prems(1) False by (intro Cons.IH) simp_all
    then show ?thesis using first False by (simp add: AddPage_idem)
  qed
qed

lemma runUpdate_form_pages:
  "runUpdate rc (gli\<lparr>commandFormPanel := t, pages := p\<rparr>) =
     (runUpdate rc gli)\<lparr>commandFormPanel := t, pages := p\<rparr>"
  by (simp add: runUpdate_def commandUpdate_def request_def send_def Let_def
      split: list.splits sum.splits)

text \<open>
  \<^bold>\<open>C1\<close>. While the lock is held, any number of further submissions changes nothing but
  the text in the input field and the pages, which now show the notice \<open>alert\<close>: no text
  is queued, no request is sent to the store, the lock stays, no message is sent, the
  result panel keeps its text. When the update of the running command is applied after
  them, it does what it would have done without them, so none of the rejected texts is
  ever executed.
\<close>

theorem CommandGate_rejects_while_running:
  assumes "locked gli" and "pages gli = Some ps" and "texts \<noteq> []"
  shows "\<exists>gli'. run names (submissions texts) gli = Inr gli'
           \<and> gli' = gli\<lparr>commandFormPanel := last texts, pages := Some (AddPage ''alert'' ps)\<rparr>
           \<and> updates gli' = updates gli \<and> calls gli' = calls gli \<and> locked gli'
           \<and> outputChan gli' = outputChan gli
           \<and> commandResultPanel gli' = commandResultPanel gli
           \<and> pages gli' = Some (AddPage ''alert'' ps) \<and> ''alert'' \<in> set (AddPage ''alert'' ps)
           \<and> run names (submissions texts @ [RunUpdate rc]) gli =
                Inr ((runUpdate rc gli)
                       \<lparr>commandFormPanel := last texts, pages := Some (AddPage ''alert'' ps)\<rparr>)"
proof -
  let ?g = "gli\<lparr>commandFormPanel := last texts, pages := Some (AddPage ''alert'' ps)\<rparr>"
  have r: "run names (submissions texts) gli = Inr ?g"
    using assms by (rule submissions_locked)
  have u: "run names (submissions texts @ [RunUpdate rc]) gli =
             Inr ((runUpdate rc gli)
                    \<lparr>commandFormPanel := last texts, pages := Some (AddPage ''alert'' ps)\<rparr>)"
    by (simp add: run_append r runUpdate_form_pages)
  show ?thesis
    using r u assms(1) by (simp add: AddPage_mem)
qed

theorem CommandGate_rejects_while_running_witness:
  "locked demoRunning \<and> pages demoRunning = Some [''base'']
   \<and> (\<exists>gli'. run demoNames (submissions [''GET a'', ''DEL a'']) demoRunning = Inr gli'
         \<and> updates gli' = [''PING''] \<and> calls gli' = [CallServerInfo, CallScan 0 ''*'' 10]
         \<and> locked gli' \<and> pages gli' = Some [''base'', ''alert''])"
  using CommandGate_rejects_while_running
          [of demoRunning "[''base'']" "[''GET a'', ''DEL a'']" demoNames "storeClient demoDb"]
  by (simp add: demoRunning_fields AddPage_def)

section \<open>The lock in reachable states\<close>

lemma showValue_gate:
  "locked (showValue rc key t ttl gli) = locked gli"
  "updates (showValue rc key t ttl gli) = updates gli"
  by (simp_all add: showValue_def selectionDone_def showListView_def appendFocus_def send_def
      request_def split: sum.splits)

lemma itemSelectedHandler_gate:
  "locked (itemSelectedHandler rc i key gli) = locked gli"
  "updates (itemSelectedHandler rc i key gli) = updates gli"
  by (simp_all add: itemSelectedHandler_def showValue_gate resetViews_def Let_def send_def
      request_def split: sum.splits)

lemma focusCommandForm_gate:
  "locked (focusCommandForm i ps gli) = locked gli"
  "updates (focusCommandForm i ps gli) = updates gli"
  by (induction ps arbitrary: i gli) (simp_all add: SetFocus_def)

lemma focusByKey_gate:
  "locked (focusByKey name i ps gli) = locked gli"
  "updates (focusByKey name i ps gli) = updates gli"
  by (induction ps arbitrary: i gli) (simp_all add: SetFocus_def)

lemma switch_focus_gate:
  "switch_focus gli = Inr gli' \<Longrightarrow> locked gli' = locked gli \<and> updates gli' = updates gli"
  by (auto simp: switch_focus_def Let_def SetFocus_def split: if_splits)

lemma command_toggle_gate:
  "locked (command_toggle gli) = locked gli" "updates (command_toggle gli) = updates gli"
  by (simp_all add: command_toggle_def Let_def SetFocus_def redrawRightPanel_def
      focusCommandForm_gate)

lemma InputCapture_gate:
  assumes "InputCapture names ord k gli = Inr (gli', ev)"
  shows "locked gli' = locked gli \<and> updates gli' = updates gli"
proof -
  let ?g = "if Debug (config gli)
            then send ColorZero (''Key '' @ names k @ '' pressed'') gli else gli"
  consider (tab) "SearchKey ord k = ''switch_focus''"
    | (quit) "SearchKey ord k \<noteq> ''switch_focus''" "SearchKey ord k = ''quit''"
    | (cmd) "SearchKey ord k \<noteq> ''switch_focus''" "SearchKey ord k \<noteq> ''quit''"
        "SearchKey ord k = ''command''"
    | (other) "SearchKey ord k \<noteq> ''switch_focus''" "SearchKey ord k \<noteq> ''quit''"
        "SearchKey ord k \<noteq> ''command''"
    by blast
  then show ?thesis
  proof cases
    case tab
    then have "switch_focus ?g = Inr gli'"
      using assms by (auto simp: InputCapture_def Let_def split: sum.splits)
    then have "locked gli' = locked ?g \<and> updates gli' = updates ?g"
      by (rule switch_focus_gate)
    then show ?thesis by (simp add: send_def)
  next
    case quit
    then have "gli' = ?g\<lparr>stopped := True\<rparr>"
      using assms by (auto simp: InputCapture_def Let_def)
    then show ?thesis by (simp add: send_def)
  next
    case cmd
    then have "gli' = command_toggle ?g"
      using assms by (auto simp: InputCapture_def Let_def)
    then show ?thesis by (simp add: command_toggle_gate send_def)
  next
    case other
    then have "gli' = focusByKey (SearchKey ord k) 0 (focusPrimitives ?g) ?g"
      using assms by (auto simp: InputCapture_def Let_def)
    then show ?thesis by (simp add: focusByKey_gate send_def)
  qed
qed

lemma Start_gate:
  "locked (Start rc gli) = locked gli" "updates (Start rc gli) = updates gli"
  by (simp_all add: Start_def initialLoad_def Let_def request_def send_def showKeys_def
      SetFocus_def split: sum.splits option.splits prod.splits)

lemma searchDoneFunc_gate:
  "locked (searchDoneFunc rc k gli) = locked gli" "updates (searchDoneFunc rc k gli) = updates gli"
  by (simp_all add: searchDoneFunc_def Let_def request_def send_def showKeys_def
      split: sum.splits prod.splits)

lemma hashItemSelected_gate:
  "locked (hashItemSelected rc key k gli) = locked gli"
  "updates (hashItemSelected rc key k gli) = updates gli"
  by (simp_all add: hashItemSelected_def request_def send_def split: sum.splits)

lemma alertDoneFunc_gate:
  "alertDoneFunc gli = Inr gli' \<Longrightarrow> locked gli' = locked gli \<and> updates gli' = updates gli"
  by (cases "pages gli") (auto simp: alertDoneFunc_def SetFocus_def)

lemma commandDoneFunc_gate:
  assumes "locked gli \<longleftrightarrow> updates gli \<noteq> []" and "length (updates gli) \<le> 1"
    and "commandDoneFunc k gli = Inr gli'"
  shows "(locked gli' \<longleftrightarrow> updates gli' \<noteq> []) \<and> length (updates gli') \<le> 1"
proof (cases "k = KeyEnter")
  case False
  then show ?thesis using assms by (simp add: commandDoneFunc_def)
next
  case True
  show ?thesis
  proof (cases "locked gli")
    case l: True
    then obtain ps where "pages gli = Some ps"
      using assms(3) True by (cases "pages gli") (simp_all add: commandDoneFunc_def)
    then have "gli' = gli\<lparr>pages := Some (AddPage ''alert'' ps)\<rparr>"
      using assms(3) True l by (simp add: commandDoneFunc_def)
    then show ?thesis using assms(1,2) by simp
  next
    case l: False
    then have "updates gli = []" using assms(1) by simp
    then show ?thesis
      using assms(3) True l commandDoneFunc_idle[OF l] by auto
  qed
qed

lemma runUpdate_gate:
  assumes "locked gli \<longleftrightarrow> updates gli \<noteq> []" and "length (updates gli) \<le> 1"
  shows "\<not> locked (runUpdate rc gli) \<and> updates (runUpdate rc gli) = []"
proof (cases "updates gli")
  case Nil
  then show ?thesis using assms(1) by (simp add: runUpdate_def)
next
  case (Cons cmdText rest)
  then have r: "rest = []" using assms(2) by simp
  have "updates (commandUpdate rc cmdText (gli\<lparr>updates := []\<rparr>)) = []"
    by (simp add: commandUpdate_def Let_def request_def send_def split: sum.splits)
  then show ?thesis
    using Cons r by (simp add: runUpdate_def commandUpdate_unlocks)
qed

lemma gate_step:
  assumes "locked gli \<longleftrightarrow> updates gli \<noteq> []" and "length (updates gli) \<le> 1"
    and "step names e gli = Inr gli'"
  shows "(locked gli' \<longleftrightarrow> updates gli' \<noteq> []) \<and> length (updates gli') \<le> 1"
proof (cases e)
  case (StartUp rc)
  then have "gli' = Start rc gli" using assms(3) by simp
  then show ?thesis using assms(1,2) by (simp add: Start_gate)
next
  case (KeyPress ord k)
  then obtain ev where "InputCapture names ord k gli = Inr (gli', ev)"
    using assms(3) by (cases "InputCapture names ord k gli") auto
  then have "locked gli' = locked gli \<and> updates gli' = updates gli"
    by (rule InputCapture_gate)
  then show ?thesis using assms(1,2) by simp
next
  case (EditSearch t)
  then have "gli' = gli\<lparr>searchPanel := t\<rparr>" using assms(3) by simp
  then show ?thesis using assms(1,2) by simp
next
  case (SearchDone rc k)
  then have "gli' = searchDoneFunc rc k gli" using assms(3) by simp
  then show ?thesis using assms(1,2) by (simp add: searchDoneFunc_gate)
next
  case (ItemSelected rc i key)
  then have "gli' = itemSelectedHandler rc i key gli" using assms(3) by simp
  then show ?thesis using assms(1,2) by (simp add: itemSelectedHandler_gate)
next
  case (HashItemSelected rc key k)
  then have "gli' = hashItemSelected rc key k gli" using assms(3) by simp
  then show ?thesis using assms(1,2) by (simp add: hashItemSelected_gate)
next
  case (EditCommand t)
  then have "gli' = gli\<lparr>commandFormPanel := t\<rparr>" using assms(3) by simp
  then show ?thesis using assms(1,2) by simp
next
  case (CommandDone k)
  then have "commandDoneFunc k gli = Inr gli'" using assms(3) by simp
  then show ?thesis using assms(1,2) by (intro commandDoneFunc_gate)
next
  case AlertDone
  then have "alertDoneFunc gli = Inr gli'" using assms(3) by simp
  then have "locked gli' = locked gli \<and> updates gli' = updates gli"
    by (rule alertDoneFunc_gate)
  then show ?thesis using assms(1,2) by simp
next
  case (RunUpdate rc)
  then have "gli' = runUpdate rc gli" using assms(3) by simp
  then show ?thesis using runUpdate_gate[OF assms(1,2), of rc] by simp
qed

lemma gate_run:
  assumes "locked gli \<longleftrightarrow> updates gli \<noteq> []" and "length (updates gli) \<le> 1"
    and "run names evs gli = Inr gli'"
  shows "(locked gli' \<longleftrightarrow> updates gli' \<noteq> []) \<and> length (updates gli') \<le> 1"
  using assms
proof (induction evs arbitrary: gli)
  case Nil
  then show ?case by simp
next
  case (Cons e evs)
  then obtain g1 where g1: "step names e gli = Inr g1" "run names evs g1 = Inr gli'"
    by (cases "step names e gli") auto
  have "(locked g1 \<longleftrightarrow> updates g1 \<noteq> []) \<and> length (updates g1) \<le> 1"
    using gate_step[OF Cons.prems(1,2) g1(1)] .
  then show ?case using Cons.IH[of g1] g1(2) by blast
qed

text \<open>
  In every state that the constructed application reaches, the lock is held exactly while
  an update of a submitted command waits for the UI thread, and at most one waits.
\<close>

lemma gate_reachable:
  assumes "NewRedisGli names m v g c = Inr gli0" and "run names evs gli0 = Inr gli"
  shows "(locked gli \<longleftrightarrow> updates gli \<noteq> []) \<and> length (updates gli) \<le> 1"
proof -
  have "\<not> length g < 8"
    using assms(1) by (auto simp: NewRedisGli_def)
  then have "locked gli0 = False" "updates gli0 = []"
    using assms(1) by (auto simp: construct_defs)
  then show ?thesis
    using gate_run[of gli0 names evs gli] assms(2) by simp
qed

section \<open>The key-selected handler: basic facts\<close>

lemma primitivesFilter_filter: "primitivesFilter items keep = filter keep items"
  by (induction items) simp_all

lemmas handler_defs =
  itemSelectedHandler_def showValue_def resetViews_def selectionDone_def showListView_def
  appendFocus_def request_def send_def SetFocus_def AddItem_def RemoveItem_def KeyID_def
  primitivesFilter_filter


lemma demo_answers:
  "rc_Type (storeClient demoDb) ''a'' = Inr ''string''"
  "rc_Type (storeClient demoDb) ''b'' = Inr ''list''"
  "rc_Type (storeClient demoDb) ''h'' = Inr ''hash''"
  "rc_Type (storeClient demoDb) ''broken'' = Inr ''list''"
  "rc_TTL (storeClient demoDb) key = Inr ''-1ns''"
  "rc_Get (storeClient demoDb) ''a'' = Inr ''hello''"
  "rc_LRange (storeClient demoDb) ''b'' 0 1000 = Inr [''x'', ''y'', ''z'']"
  "rc_LRange (storeClient demoDb) ''broken'' 0 1000 = Inl ''EOF''"
  "rc_HKeys (storeClient demoDb) ''h'' = Inr [''f'', ''g'']"
  by (simp_all add: storeClient_def demoDb_def store_range_def)

section \<open>The shared codes of the list view and the hash view\<close>

text \<open>
  \<^bold>\<open>C4\<close>. The round trip from an action to its codes and back fails for the codes F6
  and Ctrl-Y, which the table gives to both \<open>key_list_value\<close> and \<open>key_hash\<close>. In the
  started example application the hash key is selected, so the hash view is in the focus
  ring under the name \<open>key_hash\<close>. When the map is traversed in the order of the source
  text, F6, a code of \<open>key_hash\<close>, resolves to \<open>key_list_value\<close>; the dispatcher finds no
  entry of that name and changes neither focus nor index. When the map is traversed in
  the opposite order, F6 resolves to \<open>key_hash\<close> and the hash view gets the focus.
\<close>

theorem shared_code_misses_hash_view:
  "KeyF6 \<in> set (Keys keyBindings ''key_hash'')
   \<and> traversal_of keyBindings keyBindings
   \<and> SearchKey keyBindings KeyF6 = ''key_list_value''
   \<and> \<lparr>Primitive = P_mainHashView, Key = ''key_hash''\<rparr>
        \<in> set (focusPrimitives (itemSelectedHandler (storeClient demoDb) 2 ''h'' demoStarted))
   \<and> InputCapture demoNames keyBindings KeyF6
         (itemSelectedHandler (storeClient demoDb) 2 ''h'' demoStarted)
       = Inr (itemSelectedHandler (storeClient demoDb) 2 ''h'' demoStarted, Some KeyF6)
   \<and> traversal_of keyBindings (rev keyBindings)
   \<and> SearchKey (rev keyBindings) KeyF6 = ''key_hash''
   \<and> InputCapture demoNames (rev keyBindings) KeyF6
         (itemSelectedHandler (storeClient demoDb) 2 ''h'' demoStarted)
       = Inr ((itemSelectedHandler (storeClient demoDb) 2 ''h'' demoStarted)
                \<lparr>focus := Some P_mainHashView, currentFocusIndex := 5\<rparr>, Some KeyF6)"
proof -
  define gH where "gH = itemSelectedHandler (storeClient demoDb) 2 ''h'' demoStarted"
  have ring: "focusPrimitives gH = focusPrimitives demoGli @
              [\<lparr>Primitive = P_mainHashView, Key = ''key_hash''\<rparr>,
               \<lparr>Primitive = P_mainStringView, Key = ''key_string_value''\<rparr>]"
    by (simp add: gH_def handler_defs demo_answers demoStarted_fields demoGli_fields)
  have dbg: "config gH = \<lparr>Debug = False\<rparr>"
    by (simp add: gH_def handler_defs demo_answers demoStarted_fields split: sum.splits)
  have k: "KeyF6 \<in> set (Keys keyBindings ''key_hash'')"
    by (simp add: Keys_def keyBindings_def)
  have t: "traversal_of keyBindings keyBindings" "traversal_of keyBindings (rev keyBindings)"
    by (simp_all add: traversal_of_def)
  have s1: "SearchKey keyBindings KeyF6 = ''key_list_value''"
    by (simp add: keyBindings_def)
  have s2: "SearchKey (rev keyBindings) KeyF6 = ''key_hash''"
    by (simp add: keyBindings_def)
  have m: "\<lparr>Primitive = P_mainHashView, Key = ''key_hash''\<rparr> \<in> set (focusPrimitives gH)"
    by (simp add: ring)
  have i1: "InputCapture demoNames keyBindings KeyF6 gH = Inr (gH, Some KeyF6)"
    by (simp add: InputCapture_def Let_def s1 dbg ring demoGli_fields)
  have i2: "InputCapture demoNames (rev keyBindings) KeyF6 gH =
              Inr (gH\<lparr>focus := Some P_mainHashView, currentFocusIndex := 5\<rparr>, Some KeyF6)"
    by (simp add: InputCapture_def Let_def s2 dbg ring demoGli_fields SetFocus_def)
  show ?thesis
    unfolding gH_def[symmetric] using k t s1 s2 m i1 i2 by simp
qed

section \<open>Properties of the focus ring\<close>

lemma go_int_id: "- (2 ^ 63) \<le> x \<Longrightarrow> x < 2 ^ 63 \<Longrightarrow> go_int x = x"
  by (simp add: go_int_def)

lemma switch_focus_next:
  assumes "0 \<le> currentFocusIndex gli"
    and "currentFocusIndex gli < int (length (focusPrimitives gli))"
    and "int (length (focusPrimitives gli)) < 2 ^ 63"
  shows "\<exists>gli'. switch_focus gli = Inr gli'
           \<and> gli' = gli\<lparr>focus := Some (Primitive (focusPrimitives gli ! nat (currentFocusIndex gli'))),
                        currentFocusIndex := currentFocusIndex gli'\<rparr>
           \<and> currentFocusIndex gli' =
               (if currentFocusIndex gli + 1 < int (length (focusPrimitives gli))
                then currentFocusIndex gli + 1 else 0)"
proof -
  have "go_int (currentFocusIndex gli + 1) = currentFocusIndex gli + 1"
    using assms by (intro go_int_id) simp_all
  then show ?thesis
    using assms by (auto simp: switch_focus_def SetFocus_def Let_def)
qed

lemma switch_focus_mod:
  assumes "0 \<le> currentFocusIndex gli"
    and "currentFocusIndex gli < int (length (focusPrimitives gli))"
    and "int (length (focusPrimitives gli)) < 2 ^ 63"
  shows "\<exists>gli'. switch_focus gli = Inr gli'
           \<and> focusPrimitives gli' = focusPrimitives gli
           \<and> currentFocusIndex gli' =
                (currentFocusIndex gli + 1) mod int (length (focusPrimitives gli))
           \<and> focus gli' = Some (Primitive (focusPrimitives gli ! nat (currentFocusIndex gli')))"
proof -
  obtain gli' where g: "switch_focus gli = Inr gli'"
    "gli' = gli\<lparr>focus := Some (Primitive (focusPrimitives gli ! nat (currentFocusIndex gli'))),
                        currentFocusIndex := currentFocusIndex gli'\<rparr>"
    "currentFocusIndex gli' =
               (if currentFocusIndex gli + 1 < int (length (focusPrimitives gli))
                then currentFocusIndex gli + 1 else 0)"
    using switch_focus_next[OF assms] by blast
  have m: "(if currentFocusIndex gli + 1 < int (length (focusPrimitives gli))
                then currentFocusIndex gli + 1 else 0)
        = (currentFocusIndex gli + 1) mod int (length (focusPrimitives gli))"
  proof (cases "currentFocusIndex gli + 1 < int (length (focusPrimitives gli))")
    case True
    then show ?thesis using assms by simp
  next
    case False
    then have "currentFocusIndex gli + 1 = int (length (focusPrimitives gli))"
      using assms by linarith
    then show ?thesis using False by simp
  qed
  have "focusPrimitives gli' = focusPrimitives gli"
    by (subst g(2)) simp
  moreover have "focus gli' = Some (Primitive (focusPrimitives gli ! nat (currentFocusIndex gli')))"
    by (subst g(2)) simp
  ultimately show ?thesis using g(1,3) m by simp
qed

lemma send_ring [simp]:
  "focusPrimitives (send c m gli) = focusPrimitives gli"
  "currentFocusIndex (send c m gli) = currentFocusIndex gli"
  by (simp_all add: send_def)

lemma InputCapture_Tab:
  assumes "traversal_of keyBindings ord"
    and "0 \<le> currentFocusIndex gli"
    and "currentFocusIndex gli < int (length (focusPrimitives gli))"
    and "int (length (focusPrimitives gli)) < 2 ^ 63"
  shows "\<exists>gli'. InputCapture names ord KeyTab gli = Inr (gli', None)
           \<and> focusPrimitives gli' = focusPrimitives gli
           \<and> currentFocusIndex gli' =
                (currentFocusIndex gli + 1) mod int (length (focusPrimitives gli))
           \<and> focus gli' = Some (Primitive (focusPrimitives gli ! nat (currentFocusIndex gli')))"
proof -
  let ?g = "if Debug (config gli)
            then send ColorZero (''Key '' @ names KeyTab @ '' pressed'') gli else gli"
  have "0 \<le> currentFocusIndex ?g" "currentFocusIndex ?g < int (length (focusPrimitives ?g))"
    "int (length (focusPrimitives ?g)) < 2 ^ 63"
    using assms(2,3,4) by simp_all
  from switch_focus_mod[OF this] obtain gli' where
    "switch_focus ?g = Inr gli'" "focusPrimitives gli' = focusPrimitives ?g"
    "currentFocusIndex gli' = (currentFocusIndex ?g + 1) mod int (length (focusPrimitives ?g))"
    "focus gli' = Some (Primitive (focusPrimitives ?g ! nat (currentFocusIndex gli')))"
    by blast
  then show ?thesis
    using SearchKey_Tab[OF assms(1)] by (simp add: InputCapture_def Let_def)
qed

lemma tabs_run:
  assumes "\<forall>ord \<in> set ords. traversal_of keyBindings ord"
    and "0 \<le> currentFocusIndex gli"
    and "currentFocusIndex gli < int (length (focusPrimitives gli))"
    and "int (length (focusPrimitives gli)) < 2 ^ 63"
  shows "\<exists>gli'. run names (tabs ords) gli = Inr gli'
           \<and> focusPrimitives gli' = focusPrimitives gli
           \<and> currentFocusIndex gli' =
                (currentFocusIndex gli + int (length ords)) mod int (length (focusPrimitives gli))
           \<and> (ords \<noteq> [] \<longrightarrow>
                focus gli' = Some (Primitive (focusPrimitives gli ! nat (currentFocusIndex gli'))))"
  using assms
proof (induction ords arbitrary: gli)
  case Nil
  then show ?case by (simp add: tabs_def)
next
  case (Cons ord ords)
  let ?K = "int (length (focusPrimitives gli))"
  obtain g1 where g1: "InputCapture names ord KeyTab gli = Inr (g1, None)"
    "focusPrimitives g1 = focusPrimitives gli"
    "currentFocusIndex g1 = (currentFocusIndex gli + 1) mod ?K"
    "focus g1 = Some (Primitive (focusPrimitives gli ! nat (currentFocusIndex g1)))"
    using InputCapture_Tab[of ord gli names] Cons.prems by auto
  have K: "0 < ?K" using Cons.prems by linarith
  have r: "0 \<le> currentFocusIndex g1" "currentFocusIndex g1 < int (length (focusPrimitives g1))"
    "int (length (focusPrimitives g1)) < 2 ^ 63"
    using g1 K Cons.prems(4) by simp_all
  from Cons.IH[OF _ r] Cons.prems(1) obtain g2 where g2:
    "run names (tabs ords) g1 = Inr g2" "focusPrimitives g2 = focusPrimitives g1"
    "currentFocusIndex g2 =
       (currentFocusIndex g1 + int (length ords)) mod int (length (focusPrimitives g1))"
    "ords \<noteq> [] \<longrightarrow>
       focus g2 = Some (Primitive (focusPrimitives g1 ! nat (currentFocusIndex g2)))"
    by auto
  have run: "run names (tabs (ord # ords)) gli = Inr g2"
    using g1 g2 by (simp add: tabs_def)
  have idx: "currentFocusIndex g2 = (currentFocusIndex gli + int (length (ord # ords))) mod ?K"
    using g2(3) g1(2,3) by (simp add: mod_simps algebra_simps)
  have foc: "focus g2 = Some (Primitive (focusPrimitives gli ! nat (currentFocusIndex g2)))"
  proof (cases "ords = []")
    case True
    then have "g2 = g1" using g2(1) by (simp add: tabs_def)
    then show ?thesis using g1(4) by simp
  next
    case False
    then show ?thesis using g2(4) g1(2) by simp
  qed
  show ?case using run idx foc g2(2) g1(2) by simp
qed

text \<open>
  \<^bold>\<open>C5\<close>. On a ring of \<open>K \<ge> 1\<close> entries (\<open>K\<close> the length of a Go slice) whose current
  index is a position of the ring, every Tab moves the index to the next position, and
  from the last position to 0, and gives the focus to the entry there: after \<open>n\<close> Tabs
  the index is \<open>(index + n) mod K\<close>. So after a multiple of \<open>K\<close> Tabs the index is back
  where it was. No Tab panics, none changes the ring, and Tab resolves to \<open>switch_focus\<close>
  in every order in which the map can be traversed.
\<close>

theorem switch_focus_cycle:
  assumes "length (focusPrimitives gli) = K" and "1 \<le> K" and "int K < 2 ^ 63"
    and "0 \<le> currentFocusIndex gli" and "currentFocusIndex gli < int K"
    and "\<forall>ord \<in> set ords. traversal_of keyBindings ord"
  shows "\<exists>gli'. run names (tabs ords) gli = Inr gli'
           \<and> focusPrimitives gli' = focusPrimitives gli
           \<and> currentFocusIndex gli' = (currentFocusIndex gli + int (length ords)) mod int K
           \<and> (length ords = 1 \<longrightarrow>
                currentFocusIndex gli' =
                  (if currentFocusIndex gli + 1 < int K then currentFocusIndex gli + 1 else 0))
           \<and> (ords \<noteq> [] \<longrightarrow>
                focus gli' = Some (Primitive (focusPrimitives gli ! nat (currentFocusIndex gli'))))
           \<and> (\<forall>m. length ords = m * K \<longrightarrow> currentFocusIndex gli' = currentFocusIndex gli)"
proof -
  obtain gli' where g: "run names (tabs ords) gli = Inr gli'"
    "focusPrimitives gli' = focusPrimitives gli"
    "currentFocusIndex gli' =
       (currentFocusIndex gli + int (length ords)) mod int (length (focusPrimitives gli))"
    "ords \<noteq> [] \<longrightarrow>
       focus gli' = Some (Primitive (focusPrimitives gli ! nat (currentFocusIndex gli')))"
    using tabs_run[OF assms(6), of gli names] assms(1,3,4,5) by auto
  have one: "currentFocusIndex gli' =
      (if currentFocusIndex gli + 1 < int K then currentFocusIndex gli + 1 else 0)"
    if "length ords = 1"
  proof (cases "currentFocusIndex gli + 1 < int K")
    case True
    then show ?thesis using g(3) that assms(1,4) by simp
  next
    case False
    then have "currentFocusIndex gli + 1 = int K" using assms(5) by linarith
    then show ?thesis using g(3) that assms(1) False by simp
  qed
  have cyc: "currentFocusIndex gli' = currentFocusIndex gli" if "length ords = m * K" for m
  proof -
    have "(currentFocusIndex gli + int (m * K)) mod int K = currentFocusIndex gli"
      using assms(4,5) by simp
    then show ?thesis using g(3) that assms(1) by simp
  qed
  have p3: "currentFocusIndex gli' = (currentFocusIndex gli + int (length ords)) mod int K"
    using g(3) assms(1) by simp
  have p4: "length ords = 1 \<longrightarrow>
              currentFocusIndex gli' =
                (if currentFocusIndex gli + 1 < int K then currentFocusIndex gli + 1 else 0)"
    using one by blast
  have p6: "\<forall>m. length ords = m * K \<longrightarrow> currentFocusIndex gli' = currentFocusIndex gli"
    using cyc by blast
  show ?thesis
    by (intro exI[of _ gli'] conjI g(1) g(2) p3 p4 g(4) p6)
qed

theorem switch_focus_cycle_witness:
  "length (focusPrimitives demoStarted) = 5 \<and> currentFocusIndex demoStarted = 0
   \<and> (\<exists>gli'. run demoNames (tabs (replicate 10 keyBindings)) demoStarted = Inr gli'
          \<and> currentFocusIndex gli' = 0
          \<and> focus gli' = Some P_outputPanel)
   \<and> (\<exists>gli'. run demoNames (tabs [keyBindings]) demoStarted = Inr gli'
          \<and> currentFocusIndex gli' = 1
          \<and> focus gli' = Some P_commandFormPanel)"
proof -
  have t: "\<forall>ord \<in> set (replicate 10 keyBindings). traversal_of keyBindings ord"
    and t1: "\<forall>ord \<in> set [keyBindings]. traversal_of keyBindings ord"
    by (simp_all add: traversal_of_def)
  have l: "length (focusPrimitives demoStarted) = 5"
    by (simp add: demoStarted_fields demoGli_fields)
  have a: "\<exists>gli'. run demoNames (tabs (replicate 10 keyBindings)) demoStarted = Inr gli'
          \<and> currentFocusIndex gli' = 0 \<and> focus gli' = Some P_outputPanel"
    using switch_focus_cycle[OF l _ _ _ _ t, of demoNames]
    by (auto simp: demoStarted_fields demoGli_fields)
  have b: "\<exists>gli'. run demoNames (tabs [keyBindings]) demoStarted = Inr gli'
          \<and> currentFocusIndex gli' = 1 \<and> focus gli' = Some P_commandFormPanel"
    using switch_focus_cycle[OF l _ _ _ _ t1, of demoNames]
    by (auto simp: demoStarted_fields demoGli_fields)
  show ?thesis using a b l by (simp add: demoStarted_fields)
qed

section \<open>The key-selected handler: errors\<close>

lemma itemSelectedHandler_type_error:
  "rc_Type rc key = Inl err \<Longrightarrow>
   itemSelectedHandler rc i key gli =
     gli\<lparr>calls := calls gli @ [CallType key],
         outputChan := outputChan gli @ [\<lparr>Color = ColorRed, Message = ''errors: '' @ err\<rparr>]\<rparr>"
  by (simp add: itemSelectedHandler_def request_def send_def)

lemma itemSelectedHandler_ttl_error:
  "rc_Type rc key = Inr t \<Longrightarrow> rc_TTL rc key = Inl err \<Longrightarrow>
   itemSelectedHandler rc i key gli =
     gli\<lparr>calls := calls gli @ [CallType key, CallTTL key],
         outputChan := outputChan gli @ [\<lparr>Color = ColorRed, Message = ''errors: '' @ err\<rparr>]\<rparr>"
  by (simp add: itemSelectedHandler_def request_def send_def)

lemma itemSelectedHandler_showValue:
  "rc_Type rc key = Inr t \<Longrightarrow> rc_TTL rc key = Inr ttl \<Longrightarrow>
   itemSelectedHandler rc i key gli =
     showValue rc key t ttl (resetViews (request (CallTTL key) (request (CallType key) gli)))"
  by (simp add: itemSelectedHandler_def)

lemma showValue_string_error:
  "rc_Get rc key = Inl err \<Longrightarrow>
   showValue rc key ''string'' ttl gli =
     send ColorRed (''errors: '' @ err) (request (CallGet key) gli)"
  by (simp add: showValue_def)

lemma showValue_list_error:
  "rc_LRange rc key 0 1000 = Inl err \<Longrightarrow>
   showValue rc key ''list'' ttl gli =
     send ColorRed (''errors: '' @ err) (request (CallLRange key 0 1000) gli)"
  by (simp add: showValue_def)

lemma showValue_set_error:
  "rc_SMembers rc key = Inl err \<Longrightarrow>
   showValue rc key ''set'' ttl gli =
     send ColorRed (''errors: '' @ err) (request (CallSMembers key) gli)"
  by (simp add: showValue_def)

lemma showValue_zset_error:
  "rc_ZRangeWithScores rc key 0 1000 = Inl err \<Longrightarrow>
   showValue rc key ''zset'' ttl gli =
     send ColorRed (''errors: '' @ err) (request (CallZRangeWithScores key 0 1000) gli)"
  by (simp add: showValue_def)

lemma showValue_hash_error:
  "rc_HKeys rc key = Inl err \<Longrightarrow>
   showValue rc key ''hash'' ttl gli =
     send ColorRed (''errors: '' @ err) (request (CallHKeys key) gli)"
  by (simp add: showValue_def)

lemma value_error_state:
  assumes "rc_Type rc key = Inr t" and "rc_TTL rc key = Inr ttl"
    and "(t = ''string'' \<and> rc_Get rc key = Inl err)
       \<or> (t = ''list'' \<and> rc_LRange rc key 0 1000 = Inl err)
       \<or> (t = ''set'' \<and> rc_SMembers rc key = Inl err)
       \<or> (t = ''zset'' \<and> rc_ZRangeWithScores rc key 0 1000 = Inl err)
       \<or> (t = ''hash'' \<and> rc_HKeys rc key = Inl err)"
  shows "\<exists>c. itemSelectedHandler rc i key gli =
           send ColorRed (''errors: '' @ err)
             (request c (resetViews (request (CallTTL key) (request (CallType key) gli))))"
proof -
  let ?g = "resetViews (request (CallTTL key) (request (CallType key) gli))"
  have hv: "itemSelectedHandler rc i key gli = showValue rc key t ttl ?g"
    using assms(1,2) by (rule itemSelectedHandler_showValue)
  from assms(3) consider
      (s) "t = ''string''" "rc_Get rc key = Inl err"
    | (l) "t = ''list''" "rc_LRange rc key 0 1000 = Inl err"
    | (m) "t = ''set''" "rc_SMembers rc key = Inl err"
    | (z) "t = ''zset''" "rc_ZRangeWithScores rc key 0 1000 = Inl err"
    | (h) "t = ''hash''" "rc_HKeys rc key = Inl err"
    by blast
  then show ?thesis
  proof cases
    case s
    then show ?thesis unfolding hv
      by (intro exI[of _ "CallGet key"]) (simp add: showValue_string_error)
  next
    case l
    then show ?thesis unfolding hv
      by (intro exI[of _ "CallLRange key 0 1000"]) (simp add: showValue_list_error)
  next
    case m
    then show ?thesis unfolding hv
      by (intro exI[of _ "CallSMembers key"]) (simp add: showValue_set_error)
  next
    case z
    then show ?thesis unfolding hv
      by (intro exI[of _ "CallZRangeWithScores key 0 1000"]) (simp add: showValue_zset_error)
  next
    case h
    then show ?thesis unfolding hv
      by (intro exI[of _ "CallHKeys key"]) (simp add: showValue_hash_error)
  qed
qed

lemma reset_error_fields:
  fixes gli c m key
  defines "g \<equiv> send ColorRed m (request c (resetViews (request (CallTTL key) (request (CallType key) gli))))"
  shows "outputChan g = outputChan gli @ [\<lparr>Color = ColorRed, Message = m\<rparr>]"
    and "metaPanel g = metaPanel gli"
    and "focusPrimitives g =
           filter (\<lambda>item. Primitive item \<noteq> P_mainHashView \<and> Primitive item \<noteq> P_mainListView
                         \<and> Primitive item \<noteq> P_mainStringView) (focusPrimitives gli)"
    and "mainPanel g =
           filter (\<lambda>p. p \<noteq> P_welcomeScreen \<and> p \<noteq> P_mainStringView \<and> p \<noteq> P_mainHashView
                      \<and> p \<noteq> P_mainListView) (mainPanel gli)"
    and "mainStringView g = ''''"
    and "mainHashView g = []"
    and "mainListView g = []"
    and "currentFocusIndex g = currentFocusIndex gli"
  unfolding g_def
  by (simp_all add: send_def request_def resetViews_def RemoveItem_def primitivesFilter_filter Let_def)

text \<open>
  \<^bold>\<open>C2\<close>, as stated, fails for the fetch of the value. In the started example
  application the scalar key \<open>a\<close> is selected and shown; then the key \<open>broken\<close> is
  selected, whose type and time to live arrive and whose range fetch returns an error.
  One error message is sent, but the scalar view has lost its text, its entry has left
  the focus ring and the view has left the main panel.
\<close>

theorem selection_error_counterexample:
  "mainStringView (itemSelectedHandler (storeClient demoDb) 0 ''a'' demoStarted) = '' hello''
   \<and> mainPanel (itemSelectedHandler (storeClient demoDb) 0 ''a'' demoStarted) = [P_mainStringView]
   \<and> length (focusPrimitives (itemSelectedHandler (storeClient demoDb) 0 ''a'' demoStarted)) = 6
   \<and> rc_LRange (storeClient demoDb) ''broken'' 0 1000 = Inl ''EOF''
   \<and> outputChan (itemSelectedHandler (storeClient demoDb) 3 ''broken''
         (itemSelectedHandler (storeClient demoDb) 0 ''a'' demoStarted))
       = outputChan (itemSelectedHandler (storeClient demoDb) 0 ''a'' demoStarted)
           @ [\<lparr>Color = ColorRed, Message = ''errors: EOF''\<rparr>]
   \<and> mainStringView (itemSelectedHandler (storeClient demoDb) 3 ''broken''
         (itemSelectedHandler (storeClient demoDb) 0 ''a'' demoStarted)) = ''''
   \<and> mainPanel (itemSelectedHandler (storeClient demoDb) 3 ''broken''
         (itemSelectedHandler (storeClient demoDb) 0 ''a'' demoStarted)) = []
   \<and> length (focusPrimitives (itemSelectedHandler (storeClient demoDb) 3 ''broken''
         (itemSelectedHandler (storeClient demoDb) 0 ''a'' demoStarted))) = 5"
proof -
  let ?rc = "storeClient demoDb"
  define gA where "gA = itemSelectedHandler ?rc 0 ''a'' demoStarted"
  have a: "mainStringView gA = '' hello''" "mainPanel gA = [P_mainStringView]"
    "focusPrimitives gA = focusPrimitives demoGli @
       [\<lparr>Primitive = P_mainStringView, Key = ''key_string_value''\<rparr>]"
    by (simp_all add: gA_def handler_defs demo_answers demoStarted_fields demoGli_fields)
  have f: "(''list'' = ''string'' \<and> rc_Get ?rc ''broken'' = Inl ''EOF'')
       \<or> (''list'' = ''list'' \<and> rc_LRange ?rc ''broken'' 0 1000 = Inl ''EOF'')
       \<or> (''list'' = ''set'' \<and> rc_SMembers ?rc ''broken'' = Inl ''EOF'')
       \<or> (''list'' = ''zset'' \<and> rc_ZRangeWithScores ?rc ''broken'' 0 1000 = Inl ''EOF'')
       \<or> (''list'' = ''hash'' \<and> rc_HKeys ?rc ''broken'' = Inl ''EOF'')"
    by (simp add: demo_answers)
  obtain c where b: "itemSelectedHandler ?rc 3 ''broken'' gA =
      send ColorRed (''errors: '' @ ''EOF'')
        (request c (resetViews (request (CallTTL ''broken'') (request (CallType ''broken'') gA))))"
    using value_error_state[OF demo_answers(4) demo_answers(5) f, of 3 gA] by blast
  show ?thesis
    unfolding gA_def[symmetric] b reset_error_fields
    by (simp add: a demo_answers demoGli_fields)
qed

text \<open>
  \<^bold>\<open>C2\<close> (amended). An error of the type fetch or of the fetch of the time to live
  sends exactly one error message and changes nothing else but the record of the requests:
  the detail panel, its content and its entries in the focus ring stay as they were. An
  error of the fetch of the value also sends exactly one error message and ends the
  selection (no view is added, no success is reported, the metadata text stays), but the
  reset that precedes this fetch has been done: the three detail views are empty, their
  entries are out of the focus ring, and they and the welcome screen are out of the main
  panel; the index of the focus ring is not touched.
\<close>

theorem selection_fetch_error:
  "(rc_Type rc key = Inl err \<longrightarrow>
      itemSelectedHandler rc i key gli =
        gli\<lparr>calls := calls gli @ [CallType key],
            outputChan := outputChan gli @ [\<lparr>Color = ColorRed, Message = ''errors: '' @ err\<rparr>]\<rparr>)
   \<and> (rc_Type rc key = Inr t \<and> rc_TTL rc key = Inl err \<longrightarrow>
      itemSelectedHandler rc i key gli =
        gli\<lparr>calls := calls gli @ [CallType key, CallTTL key],
            outputChan := outputChan gli @ [\<lparr>Color = ColorRed, Message = ''errors: '' @ err\<rparr>]\<rparr>)
   \<and> (rc_Type rc key = Inr t \<and> rc_TTL rc key = Inr ttl
        \<and> ((t = ''string'' \<and> rc_Get rc key = Inl err)
           \<or> (t = ''list'' \<and> rc_LRange rc key 0 1000 = Inl err)
           \<or> (t = ''set'' \<and> rc_SMembers rc key = Inl err)
           \<or> (t = ''zset'' \<and> rc_ZRangeWithScores rc key 0 1000 = Inl err)
           \<or> (t = ''hash'' \<and> rc_HKeys rc key = Inl err)) \<longrightarrow>
      outputChan (itemSelectedHandler rc i key gli) =
        outputChan gli @ [\<lparr>Color = ColorRed, Message = ''errors: '' @ err\<rparr>]
      \<and> metaPanel (itemSelectedHandler rc i key gli) = metaPanel gli
      \<and> focusPrimitives (itemSelectedHandler rc i key gli) =
            filter (\<lambda>item. Primitive item \<noteq> P_mainHashView \<and> Primitive item \<noteq> P_mainListView
                          \<and> Primitive item \<noteq> P_mainStringView) (focusPrimitives gli)
      \<and> mainPanel (itemSelectedHandler rc i key gli) =
            filter (\<lambda>p. p \<noteq> P_welcomeScreen \<and> p \<noteq> P_mainStringView \<and> p \<noteq> P_mainHashView
                       \<and> p \<noteq> P_mainListView) (mainPanel gli)
      \<and> mainStringView (itemSelectedHandler rc i key gli) = ''''
      \<and> mainHashView (itemSelectedHandler rc i key gli) = []
      \<and> mainListView (itemSelectedHandler rc i key gli) = []
      \<and> currentFocusIndex (itemSelectedHandler rc i key gli) = currentFocusIndex gli)"
proof -
  have a: "rc_Type rc key = Inl err \<longrightarrow>
      itemSelectedHandler rc i key gli =
        gli\<lparr>calls := calls gli @ [CallType key],
            outputChan := outputChan gli @ [\<lparr>Color = ColorRed, Message = ''errors: '' @ err\<rparr>]\<rparr>"
    by (simp add: itemSelectedHandler_type_error)
  have b: "rc_Type rc key = Inr t \<and> rc_TTL rc key = Inl err \<longrightarrow>
      itemSelectedHandler rc i key gli =
        gli\<lparr>calls := calls gli @ [CallType key, CallTTL key],
            outputChan := outputChan gli @ [\<lparr>Color = ColorRed, Message = ''errors: '' @ err\<rparr>]\<rparr>"
    by (simp add: itemSelectedHandler_ttl_error)
  have c: "rc_Type rc key = Inr t \<and> rc_TTL rc key = Inr ttl
        \<and> ((t = ''string'' \<and> rc_Get rc key = Inl err)
           \<or> (t = ''list'' \<and> rc_LRange rc key 0 1000 = Inl err)
           \<or> (t = ''set'' \<and> rc_SMembers rc key = Inl err)
           \<or> (t = ''zset'' \<and> rc_ZRangeWithScores rc key 0 1000 = Inl err)
           \<or> (t = ''hash'' \<and> rc_HKeys rc key = Inl err)) \<longrightarrow>
      outputChan (itemSelectedHandler rc i key gli) =
        outputChan gli @ [\<lparr>Color = ColorRed, Message = ''errors: '' @ err\<rparr>]
      \<and> metaPanel (itemSelectedHandler rc i key gli) = metaPanel gli
      \<and> focusPrimitives (itemSelectedHandler rc i key gli) =
            filter (\<lambda>item. Primitive item \<noteq> P_mainHashView \<and> Primitive item \<noteq> P_mainListView
                          \<and> Primitive item \<noteq> P_mainStringView) (focusPrimitives gli)
      \<and> mainPanel (itemSelectedHandler rc i key gli) =
            filter (\<lambda>p. p \<noteq> P_welcomeScreen \<and> p \<noteq> P_mainStringView \<and> p \<noteq> P_mainHashView
                       \<and> p \<noteq> P_mainListView) (mainPanel gli)
      \<and> mainStringView (itemSelectedHandler rc i key gli) = ''''
      \<and> mainHashView (itemSelectedHandler rc i key gli) = []
      \<and> mainListView (itemSelectedHandler rc i key gli) = []
      \<and> currentFocusIndex (itemSelectedHandler rc i key gli) = currentFocusIndex gli"
  proof (rule impI)
    assume h: "rc_Type rc key = Inr t \<and> rc_TTL rc key = Inr ttl
        \<and> ((t = ''string'' \<and> rc_Get rc key = Inl err)
           \<or> (t = ''list'' \<and> rc_LRange rc key 0 1000 = Inl err)
           \<or> (t = ''set'' \<and> rc_SMembers rc key = Inl err)
           \<or> (t = ''zset'' \<and> rc_ZRangeWithScores rc key 0 1000 = Inl err)
           \<or> (t = ''hash'' \<and> rc_HKeys rc key = Inl err))"
    then obtain c where c: "itemSelectedHandler rc i key gli =
        send ColorRed (''errors: '' @ err)
          (request c (resetViews (request (CallTTL key) (request (CallType key) gli))))"
      using value_error_state[of rc key t ttl err i gli] by blast
    show "outputChan (itemSelectedHandler rc i key gli) =
        outputChan gli @ [\<lparr>Color = ColorRed, Message = ''errors: '' @ err\<rparr>]
      \<and> metaPanel (itemSelectedHandler rc i key gli) = metaPanel gli
      \<and> focusPrimitives (itemSelectedHandler rc i key gli) =
            filter (\<lambda>item. Primitive item \<noteq> P_mainHashView \<and> Primitive item \<noteq> P_mainListView
                          \<and> Primitive item \<noteq> P_mainStringView) (focusPrimitives gli)
      \<and> mainPanel (itemSelectedHandler rc i key gli) =
            filter (\<lambda>p. p \<noteq> P_welcomeScreen \<and> p \<noteq> P_mainStringView \<and> p \<noteq> P_mainHashView
                       \<and> p \<noteq> P_mainListView) (mainPanel gli)
      \<and> mainStringView (itemSelectedHandler rc i key gli) = ''''
      \<and> mainHashView (itemSelectedHandler rc i key gli) = []
      \<and> mainListView (itemSelectedHandler rc i key gli) = []
      \<and> currentFocusIndex (itemSelectedHandler rc i key gli) = currentFocusIndex gli"
      unfolding c reset_error_fields by simp
  qed
  show ?thesis
    by (intro conjI a b c)
qed

theorem selection_fetch_error_witness:
  "itemSelectedHandler ((storeClient demoDb)\<lparr>rc_Type := \<lambda>k. Inl ''EOF''\<rparr>) 0 ''a'' demoStarted =
     demoStarted\<lparr>calls := calls demoStarted @ [CallType ''a''],
                 outputChan := outputChan demoStarted @
                   [\<lparr>Color = ColorRed, Message = ''errors: EOF''\<rparr>]\<rparr>
   \<and> itemSelectedHandler ((storeClient demoDb)\<lparr>rc_TTL := \<lambda>k. Inl ''EOF''\<rparr>) 0 ''a'' demoStarted =
     demoStarted\<lparr>calls := calls demoStarted @ [CallType ''a'', CallTTL ''a''],
                 outputChan := outputChan demoStarted @
                   [\<lparr>Color = ColorRed, Message = ''errors: EOF''\<rparr>]\<rparr>
   \<and> rc_Type (storeClient demoDb) ''broken'' = Inr ''list''
   \<and> rc_TTL (storeClient demoDb) ''broken'' = Inr ''-1ns''
   \<and> rc_LRange (storeClient demoDb) ''broken'' 0 1000 = Inl ''EOF''
   \<and> outputChan (itemSelectedHandler (storeClient demoDb) 3 ''broken'' demoStarted) =
       [\<lparr>Color = ColorRed, Message = ''errors: EOF''\<rparr>]
   \<and> mainPanel (itemSelectedHandler (storeClient demoDb) 3 ''broken'' demoStarted) = []
   \<and> focusPrimitives (itemSelectedHandler (storeClient demoDb) 3 ''broken'' demoStarted) =
       focusPrimitives demoStarted"
proof -
  have 1: "rc_Type ((storeClient demoDb)\<lparr>rc_Type := \<lambda>k. Inl ''EOF''\<rparr>) ''a'' = Inl ''EOF''"
    by simp
  have 2: "rc_Type ((storeClient demoDb)\<lparr>rc_TTL := \<lambda>k. Inl ''EOF''\<rparr>) ''a'' = Inr ''string''
         \<and> rc_TTL ((storeClient demoDb)\<lparr>rc_TTL := \<lambda>k. Inl ''EOF''\<rparr>) ''a'' = Inl ''EOF''"
    by (simp add: demo_answers)
  have 3: "rc_Type (storeClient demoDb) ''broken'' = Inr ''list''
         \<and> rc_TTL (storeClient demoDb) ''broken'' = Inr ''-1ns''
         \<and> rc_LRange (storeClient demoDb) ''broken'' 0 1000 = Inl ''EOF''"
    by (simp add: demo_answers)
  show ?thesis
    using 1 2 3
      selection_fetch_error[where rc = "(storeClient demoDb)\<lparr>rc_Type := \<lambda>k. Inl ''EOF''\<rparr>"
        and key = "''a''" and err = "''EOF''" and i = 0 and gli = demoStarted]
      selection_fetch_error[where rc = "(storeClient demoDb)\<lparr>rc_TTL := \<lambda>k. Inl ''EOF''\<rparr>"
        and key = "''a''" and err = "''EOF''" and i = 0 and gli = demoStarted and t = "''string''"]
      selection_fetch_error[where rc = "storeClient demoDb"
        and key = "''broken''" and err = "''EOF''" and i = 3 and gli = demoStarted
        and t = "''list''" and ttl = "''-1ns''"]
    by (simp add: demoStarted_fields demoGli_fields)
qed

section \<open>The key-selected handler: the list views\<close>

lemma store_range_0_1000: "store_range xs 0 1000 = take 1001 xs"
  by (cases "xs = []") (auto simp: store_range_def Let_def min_def)

lemma listRows_length: "length (listRows vals) = length vals"
  by (simp add: listRows_def)

lemma zsetRows_length: "length (zsetRows vals) = length vals"
  by (simp add: zsetRows_def)

lemma listRows_nth:
  "j < length vals \<Longrightarrow> listRows vals ! j = ('' '' @ fmt_3d (int j + 1) @ '' | '' @ vals ! j, '''')"
  by (simp add: listRows_def listRow_def nth_enumerate_eq)

lemma itemSelectedHandler_list:
  assumes "rc_Type rc key = Inr ''list''" and "rc_TTL rc key = Inr ttl"
    and "rc_LRange rc key 0 1000 = Inr vals"
  shows "mainListView (itemSelectedHandler rc i key gli) = listRows vals"
    and "mainPanel (itemSelectedHandler rc i key gli) =
           filter (\<lambda>p. p \<noteq> P_welcomeScreen \<and> p \<noteq> P_mainStringView \<and> p \<noteq> P_mainHashView
                      \<and> p \<noteq> P_mainListView) (mainPanel gli) @ [P_mainListView]"
    and "calls (itemSelectedHandler rc i key gli) =
           calls gli @ [CallType key, CallTTL key, CallLRange key 0 1000]"
  using assms by (simp_all add: handler_defs Let_def conj_commute conj_left_commute)

lemma itemSelectedHandler_zset:
  assumes "rc_Type rc key = Inr ''zset''" and "rc_TTL rc key = Inr ttl"
    and "rc_ZRangeWithScores rc key 0 1000 = Inr vals"
  shows "mainListView (itemSelectedHandler rc i key gli) = zsetRows vals"
    and "calls (itemSelectedHandler rc i key gli) =
           calls gli @ [CallType key, CallTTL key, CallZRangeWithScores key 0 1000]"
  using assms by (simp_all add: handler_defs Let_def)

lemma demoRanked_length: "length demoRanked = 1001"
  unfolding demoRanked_def length_map length_upt by simp

lemma fmt_small: "fmt_3d 1 = ''  1''" "fmt_3d 2 = ''  2''" "fmt_3d 3 = ''  3''"
  by (simp_all add: fmt_3d_def pad_left_def fmt_d_def digits.simps digit_char_def numeral_2_eq_2)

text \<open>
  \<^bold>\<open>C6\<close>. The handler asks for the positions 0 to 1000 of a list and of a ranked set.
  The store includes both ends of a range, so a key with 1001 elements yields 1001
  elements, and the handler shows every element it receives: the list view has 1001
  rows, one more than the bound of 1000. The list of the example holds 1001 copies of one
  value, the ranked set the members \<open>0\<close> to \<open>1000\<close>.
\<close>

theorem range_fetch_1001_rows: 
  "length (mainListView (itemSelectedHandler
       (storeClient [(''big'', VList (replicate 1001 ''v''))]) 0 ''big'' demoStarted)) = 1001
   \<and> length (mainListView (itemSelectedHandler
       (storeClient [(''big'', VZSet demoRanked)]) 0 ''big'' demoStarted)) = 1001"
proof -
  have "length (mainListView (itemSelectedHandler
       (storeClient [(''big'', VList (replicate 1001 ''v''))]) 0 ''big'' demoStarted)) = 1001"
    by (subst itemSelectedHandler_list[where ttl = "''-1ns''" and vals = "replicate 1001 ''v''"])
       (simp_all add: storeClient_def store_range_0_1000 listRows_length)
  moreover have "length (mainListView (itemSelectedHandler
       (storeClient [(''big'', VZSet demoRanked)]) 0 ''big'' demoStarted)) = 1001"
    by (subst itemSelectedHandler_zset[where ttl = "''-1ns''" and vals = demoRanked])
       (simp_all add: storeClient_def store_range_0_1000 zsetRows_length demoRanked_length)
  ultimately show ?thesis by simp
qed

text \<open>
  \<^bold>\<open>C7\<close>, as stated, fails in its example: the format of the rows of the list view
  starts with a space (unlike that of the key list), so the rows for the elements
  \<open>x\<close>, \<open>y\<close>, \<open>z\<close> have three characters before the index, not two.
\<close>

theorem list_view_rows_counterexample:
  "map fst (mainListView (itemSelectedHandler (storeClient demoDb) 1 ''b'' demoStarted))
     = [''   1 | x'', ''   2 | y'', ''   3 | z'']
   \<and> map fst (mainListView (itemSelectedHandler (storeClient demoDb) 1 ''b'' demoStarted))
     \<noteq> [''  1 | x'', ''  2 | y'', ''  3 | z'']"
proof -
  have "mainListView (itemSelectedHandler (storeClient demoDb) 1 ''b'' demoStarted)
          = listRows [''x'', ''y'', ''z'']"
    by (rule itemSelectedHandler_list[where ttl = "''-1ns''"]) (simp_all add: demo_answers)
  then show ?thesis
    by (simp add: listRows_def listRow_def enumerate_eq_zip upt_rec fmt_small)
qed

text \<open>
  \<^bold>\<open>C7\<close> (amended). For a key of type list, the list view shows one row for every
  element that the range fetch returned, in order; row \<open>j\<close> (counted from 0) is a space,
  the index \<open>j + 1\<close> right-aligned to a width of three, \<open> | \<close> and the element, with an
  empty secondary text; the view is in the main panel. For \<open>x\<close>, \<open>y\<close>, \<open>z\<close> the rows
  are \<open>"   1 | x"\<close>, \<open>"   2 | y"\<close>, \<open>"   3 | z"\<close>.
\<close>

theorem list_view_rows:
  assumes "rc_Type rc key = Inr ''list''" and "rc_TTL rc key = Inr ttl"
    and "rc_LRange rc key 0 1000 = Inr vals"
  shows "length (mainListView (itemSelectedHandler rc i key gli)) = length vals
       \<and> (\<forall>j < length vals.
             mainListView (itemSelectedHandler rc i key gli) ! j =
               ('' '' @ fmt_3d (int j + 1) @ '' | '' @ vals ! j, ''''))
       \<and> P_mainListView \<in> set (mainPanel (itemSelectedHandler rc i key gli))"
proof -
  have v: "mainListView (itemSelectedHandler rc i key gli) = listRows vals"
    using assms by (rule itemSelectedHandler_list(1))
  have p: "P_mainListView \<in> set (mainPanel (itemSelectedHandler rc i key gli))"
    unfolding itemSelectedHandler_list(2)[OF assms] by simp
  show ?thesis
    unfolding v using p by (simp add: listRows_length listRows_nth)
qed

theorem list_view_rows_witness:
  "rc_Type (storeClient demoDb) ''b'' = Inr ''list''
   \<and> rc_TTL (storeClient demoDb) ''b'' = Inr ''-1ns''
   \<and> rc_LRange (storeClient demoDb) ''b'' 0 1000 = Inr [''x'', ''y'', ''z'']
   \<and> length (mainListView (itemSelectedHandler (storeClient demoDb) 1 ''b'' demoStarted)) = 3
   \<and> mainListView (itemSelectedHandler (storeClient demoDb) 1 ''b'' demoStarted) ! 0
        = (''   1 | x'', '''')
   \<and> mainListView (itemSelectedHandler (storeClient demoDb) 1 ''b'' demoStarted) ! 1
        = (''   2 | y'', '''')
   \<and> mainListView (itemSelectedHandler (storeClient demoDb) 1 ''b'' demoStarted) ! 2
        = (''   3 | z'', '''')"
proof -
  note r = list_view_rows[OF demo_answers(2) demo_answers(5) demo_answers(7), of 1 demoStarted]
  have n: "\<forall>j < length [''x'', ''y'', ''z''].
             mainListView (itemSelectedHandler (storeClient demoDb) 1 ''b'' demoStarted) ! j =
               ('' '' @ fmt_3d (int j + 1) @ '' | '' @ [''x'', ''y'', ''z''] ! j, '''')"
    using r by blast
  have "(0::nat) < length [''x'', ''y'', ''z'']" "(1::nat) < length [''x'', ''y'', ''z'']"
    "(2::nat) < length [''x'', ''y'', ''z'']"
    by simp_all
  then show ?thesis
    using r n[rule_format, of 0] n[rule_format, of 1] n[rule_format, of 2]
    by (simp add: demo_answers fmt_small)
qed

section \<open>Properties of the search panel\<close>

lemma searchDoneFunc_scan:
  assumes "searchPanel gli = '''' \<or> searchPanel gli = ''*''"
  shows "calls (searchDoneFunc rc KeyEnter gli) =
           calls gli @ [CallScan 0 (searchPanel gli) (maxKeyLimit gli)]"
    and "rc_Scan rc 0 (searchPanel gli) (maxKeyLimit gli) = Inr (keys, cursor) \<Longrightarrow>
         searchDoneFunc rc KeyEnter gli =
           showKeys keys ((request (CallScan 0 (searchPanel gli) (maxKeyLimit gli)) gli)
                            \<lparr>keyItemsPanel := []\<rparr>)"
    and "rc_Scan rc 0 (searchPanel gli) (maxKeyLimit gli) = Inl err \<Longrightarrow>
         searchDoneFunc rc KeyEnter gli =
           send ColorRed (''errors: '' @ err)
             (request (CallScan 0 (searchPanel gli) (maxKeyLimit gli)) gli)"
  using assms
  by (auto simp: searchDoneFunc_def Let_def request_def send_def showKeys_def split: sum.splits)

lemma searchDoneFunc_keys:
  assumes "searchPanel gli \<noteq> ''''" and "searchPanel gli \<noteq> ''*''"
  shows "calls (searchDoneFunc rc KeyEnter gli) = calls gli @ [CallKeys (searchPanel gli)]"
    and "rc_Keys rc (searchPanel gli) = Inr keys \<Longrightarrow>
         searchDoneFunc rc KeyEnter gli =
           showKeys keys ((request (CallKeys (searchPanel gli)) gli)\<lparr>keyItemsPanel := []\<rparr>)"
    and "rc_Keys rc (searchPanel gli) = Inl err \<Longrightarrow>
         searchDoneFunc rc KeyEnter gli =
           send ColorRed (''errors: '' @ err) (request (CallKeys (searchPanel gli)) gli)"
  using assms
  by (auto simp: searchDoneFunc_def Let_def request_def send_def showKeys_def split: sum.splits)

lemma showKeys_items:
  "keyItemsPanel (showKeys keys (gli\<lparr>keyItemsPanel := []\<rparr>)) =
     map (\<lambda>(i, k). (keyItemsFormat i k, i, k)) (enumerate 0 keys)"
  "map (\<lambda>(text, i, k). k) (keyItemsPanel (showKeys keys (gli\<lparr>keyItemsPanel := []\<rparr>))) = keys"
  by (simp_all add: showKeys_def enumerate_eq_zip map_snd_zip_take case_prod_unfold comp_def)

text \<open>
  \<^bold>\<open>C10\<close>. A search submission (Enter in the search field) with the empty text or the
  text \<open>*\<close> sends exactly one request, the scan from cursor 0 with that text and the
  configured maximum key limit as its count; with any other text it sends exactly one
  request, the keys operation with that text, which has no limit parameter. In both cases
  the key list then holds, in order, every key that the operation returned: the program
  itself cuts nothing.
\<close>

theorem search_operation:
  "(searchPanel gli = '''' \<or> searchPanel gli = ''*'' \<longrightarrow>
      calls (searchDoneFunc rc KeyEnter gli) =
        calls gli @ [CallScan 0 (searchPanel gli) (maxKeyLimit gli)]
      \<and> (rc_Scan rc 0 (searchPanel gli) (maxKeyLimit gli) = Inr (keys, cursor) \<longrightarrow>
            keyItemsPanel (searchDoneFunc rc KeyEnter gli) =
              map (\<lambda>(i, k). (keyItemsFormat i k, i, k)) (enumerate 0 keys)
            \<and> map (\<lambda>(text, i, k). k) (keyItemsPanel (searchDoneFunc rc KeyEnter gli)) = keys))
   \<and> (searchPanel gli \<noteq> '''' \<and> searchPanel gli \<noteq> ''*'' \<longrightarrow>
      calls (searchDoneFunc rc KeyEnter gli) = calls gli @ [CallKeys (searchPanel gli)]
      \<and> (rc_Keys rc (searchPanel gli) = Inr keys \<longrightarrow>
            keyItemsPanel (searchDoneFunc rc KeyEnter gli) =
              map (\<lambda>(i, k). (keyItemsFormat i k, i, k)) (enumerate 0 keys)
            \<and> map (\<lambda>(text, i, k). k) (keyItemsPanel (searchDoneFunc rc KeyEnter gli)) = keys))"
proof -
  have a: "searchPanel gli = '''' \<or> searchPanel gli = ''*'' \<longrightarrow>
      calls (searchDoneFunc rc KeyEnter gli) =
        calls gli @ [CallScan 0 (searchPanel gli) (maxKeyLimit gli)]
      \<and> (rc_Scan rc 0 (searchPanel gli) (maxKeyLimit gli) = Inr (keys, cursor) \<longrightarrow>
            keyItemsPanel (searchDoneFunc rc KeyEnter gli) =
              map (\<lambda>(i, k). (keyItemsFormat i k, i, k)) (enumerate 0 keys)
            \<and> map (\<lambda>(text, i, k). k) (keyItemsPanel (searchDoneFunc rc KeyEnter gli)) = keys)"
  proof (intro impI conjI)
    assume t: "searchPanel gli = '''' \<or> searchPanel gli = ''*''"
    show "calls (searchDoneFunc rc KeyEnter gli) =
            calls gli @ [CallScan 0 (searchPanel gli) (maxKeyLimit gli)]"
      using t by (rule searchDoneFunc_scan(1))
    assume r: "rc_Scan rc 0 (searchPanel gli) (maxKeyLimit gli) = Inr (keys, cursor)"
    show "keyItemsPanel (searchDoneFunc rc KeyEnter gli) =
            map (\<lambda>(i, k). (keyItemsFormat i k, i, k)) (enumerate 0 keys)"
      unfolding searchDoneFunc_scan(2)[OF t r] by (rule showKeys_items(1))
    show "map (\<lambda>(text, i, k). k) (keyItemsPanel (searchDoneFunc rc KeyEnter gli)) = keys"
      unfolding searchDoneFunc_scan(2)[OF t r] by (rule showKeys_items(2))
  qed
  have b: "searchPanel gli \<noteq> '''' \<and> searchPanel gli \<noteq> ''*'' \<longrightarrow>
      calls (searchDoneFunc rc KeyEnter gli) = calls gli @ [CallKeys (searchPanel gli)]
      \<and> (rc_Keys rc (searchPanel gli) = Inr keys \<longrightarrow>
            keyItemsPanel (searchDoneFunc rc KeyEnter gli) =
              map (\<lambda>(i, k). (keyItemsFormat i k, i, k)) (enumerate 0 keys)
            \<and> map (\<lambda>(text, i, k). k) (keyItemsPanel (searchDoneFunc rc KeyEnter gli)) = keys)"
  proof (intro impI conjI)
    assume t: "searchPanel gli \<noteq> '''' \<and> searchPanel gli \<noteq> ''*''"
    then have t1: "searchPanel gli \<noteq> ''''" and t2: "searchPanel gli \<noteq> ''*''"
      by simp_all
    show "calls (searchDoneFunc rc KeyEnter gli) = calls gli @ [CallKeys (searchPanel gli)]"
      using t1 t2 by (rule searchDoneFunc_keys(1))
    assume r: "rc_Keys rc (searchPanel gli) = Inr keys"
    show "keyItemsPanel (searchDoneFunc rc KeyEnter gli) =
            map (\<lambda>(i, k). (keyItemsFormat i k, i, k)) (enumerate 0 keys)"
      unfolding searchDoneFunc_keys(2)[OF t1 t2 r] by (rule showKeys_items(1))
    show "map (\<lambda>(text, i, k). k) (keyItemsPanel (searchDoneFunc rc KeyEnter gli)) = keys"
      unfolding searchDoneFunc_keys(2)[OF t1 t2 r] by (rule showKeys_items(2))
  qed
  show ?thesis
    by (intro conjI a b)
qed

theorem search_operation_witness:
  "calls (searchDoneFunc (storeClient demoDb) KeyEnter (demoStarted\<lparr>searchPanel := ''*''\<rparr>)) =
     [CallServerInfo, CallScan 0 ''*'' 10, CallScan 0 ''*'' 10]
   \<and> map (\<lambda>(text, i, k). k)
       (keyItemsPanel (searchDoneFunc (storeClient demoDb) KeyEnter
          (demoStarted\<lparr>searchPanel := ''*''\<rparr>))) = [''a'', ''b'', ''h'', ''broken'']
   \<and> calls (searchDoneFunc (storeClient demoDb) KeyEnter (demoStarted\<lparr>searchPanel := ''[a-z]*''\<rparr>)) =
     [CallServerInfo, CallScan 0 ''*'' 10, CallKeys ''[a-z]*'']
   \<and> map (\<lambda>(text, i, k). k)
       (keyItemsPanel (searchDoneFunc (storeClient demoDb) KeyEnter
          (demoStarted\<lparr>searchPanel := ''[a-z]*''\<rparr>))) = [''a'', ''b'', ''h'', ''broken'']"
proof -
  have s: "rc_Scan (storeClient demoDb) 0 ''*'' 10 = Inr ([''a'', ''b'', ''h'', ''broken''], 0)"
    by (simp add: storeClient_def demoDb_def)
  have k: "rc_Keys (storeClient demoDb) ''[a-z]*'' = Inr [''a'', ''b'', ''h'', ''broken'']"
    by (simp add: storeClient_def demoDb_def)
  have m: "maxKeyLimit demoStarted = 10"
    by (simp add: demoStarted_def Start_def initialLoad_def Let_def request_def send_def
        storeClient_def showKeys_def SetFocus_def demoGli_fields)
  show ?thesis
    using s k m
      search_operation[where gli = "demoStarted\<lparr>searchPanel := ''*''\<rparr>"
        and rc = "storeClient demoDb" and keys = "[''a'', ''b'', ''h'', ''broken'']" and cursor = 0]
      search_operation[where gli = "demoStarted\<lparr>searchPanel := ''[a-z]*''\<rparr>"
        and rc = "storeClient demoDb" and keys = "[''a'', ''b'', ''h'', ''broken'']"]
    by (simp add: demoStarted_fields)
qed

section \<open>The layout in reachable states\<close>

lemma showValue_ring:
  "\<exists>added. focusPrimitives (showValue rc key t ttl gli) = focusPrimitives gli @ added
           \<and> list_all (\<lambda>pk. detailView (Primitive pk)) added"
  by (auto simp: showValue_def selectionDone_def showListView_def appendFocus_def send_def
      request_def KeyID_def detailView_def split: sum.splits)

lemma showValue_rightPanel: "rightPanel (showValue rc key t ttl gli) = rightPanel gli"
  by (auto simp: showValue_def selectionDone_def showListView_def appendFocus_def send_def
      request_def KeyID_def split: sum.splits)

lemma resetViews_ring:
  "focusPrimitives (resetViews gli) =
     filter (\<lambda>pk. \<not> detailView (Primitive pk)) (focusPrimitives gli)"
  "rightPanel (resetViews gli) = rightPanel gli"
  by (simp_all add: resetViews_def Let_def primitivesFilter_filter detailView_def)

lemma baseRing_keep: "filter (\<lambda>pk. \<not> detailView (Primitive pk)) baseRing = baseRing"
  by (simp add: baseRing_def detailView_def)

lemma filter_detail_none:
  "list_all (\<lambda>pk. detailView (Primitive pk)) xs \<Longrightarrow>
   filter (\<lambda>pk. \<not> detailView (Primitive pk)) xs = []"
  by (induction xs) simp_all

lemma layoutInv_ring:
  "layoutInv gli \<Longrightarrow> focusPrimitives gli = baseRing @ drop 5 (focusPrimitives gli)"
  by (metis append_take_drop_id layoutInv_def)

lemma layoutInv_cong:
  "focusPrimitives gli' = focusPrimitives gli \<Longrightarrow> rightPanel gli' = rightPanel gli \<Longrightarrow>
   layoutInv gli \<Longrightarrow> layoutInv gli'"
  by (simp add: layoutInv_def)

lemma layoutInv_itemSelected:
  assumes "layoutInv gli"
  shows "layoutInv (itemSelectedHandler rc i key gli)"
proof (cases "rc_Type rc key")
  case (Inl err)
  then show ?thesis
    using assms by (simp add: itemSelectedHandler_def send_def request_def layoutInv_def)
next
  case (Inr t)
  show ?thesis
  proof (cases "rc_TTL rc key")
    case (Inl err)
    then show ?thesis
      using assms Inr by (simp add: itemSelectedHandler_def send_def request_def layoutInv_def)
  next
    case ttl: (Inr ttl)
    let ?g = "resetViews (request (CallTTL key) (request (CallType key) gli))"
    have h: "itemSelectedHandler rc i key gli = showValue rc key t ttl ?g"
      using Inr ttl by (simp add: itemSelectedHandler_def)
    have r: "focusPrimitives gli = baseRing @ drop 5 (focusPrimitives gli)"
      using assms by (rule layoutInv_ring)
    have d: "list_all (\<lambda>pk. detailView (Primitive pk)) (drop 5 (focusPrimitives gli))"
      using assms by (simp add: layoutInv_def)
    have "focusPrimitives ?g =
            filter (\<lambda>pk. \<not> detailView (Primitive pk)) (baseRing @ drop 5 (focusPrimitives gli))"
      using r by (simp add: resetViews_ring request_def)
    then have g: "focusPrimitives ?g = baseRing"
      by (simp add: baseRing_keep filter_detail_none[OF d])
    obtain added where a: "focusPrimitives (showValue rc key t ttl ?g) = focusPrimitives ?g @ added"
      "list_all (\<lambda>pk. detailView (Primitive pk)) added"
      using showValue_ring by blast
    have len: "length baseRing = 5" by (simp add: baseRing_def)
    have "rightPanel (showValue rc key t ttl ?g) = rightPanel gli"
      by (simp add: showValue_rightPanel resetViews_ring request_def)
    then show ?thesis
      using assms a g len unfolding h by (simp add: layoutInv_def)
  qed
qed

lemma redrawRightPanel_inv:
  "list_all (\<lambda>p. p \<in> set [P_helpPanel, P_metaPanel, P_mainPanel, P_commandPanel, P_outputPanel])
     (rightPanel gli) \<Longrightarrow>
   rightPanel (redrawRightPanel center gli) = [P_helpPanel, P_metaPanel, center, P_outputPanel]"
proof -
  assume a: "list_all (\<lambda>p. p \<in> set [P_helpPanel, P_metaPanel, P_mainPanel, P_commandPanel, P_outputPanel])
     (rightPanel gli)"
  have "filter (\<lambda>q. q \<noteq> P_helpPanel \<and> q \<noteq> P_commandPanel \<and> q \<noteq> P_mainPanel
                    \<and> q \<noteq> P_outputPanel \<and> q \<noteq> P_metaPanel) xs = []"
    if "list_all (\<lambda>p. p \<in> set [P_helpPanel, P_metaPanel, P_mainPanel, P_commandPanel, P_outputPanel]) xs"
    for xs using that by (induction xs) auto
  from this[OF a] show ?thesis
    by (simp add: redrawRightPanel_def RemoveItem_def AddItem_def conj_commute conj_left_commute)
qed

lemma focusCommandForm_nomatch:
  "list_all (\<lambda>pk. Primitive pk \<noteq> P_commandFormPanel) ps \<Longrightarrow> focusCommandForm i ps gli = gli"
  by (induction ps arbitrary: i gli) simp_all

lemma focusCommandForm_fields:
  "focusPrimitives (focusCommandForm i ps gli) = focusPrimitives gli"
  "rightPanel (focusCommandForm i ps gli) = rightPanel gli"
  "commandMode (focusCommandForm i ps gli) = commandMode gli"
  by (induction ps arbitrary: i gli) (simp_all add: SetFocus_def)

lemma focusByKey_fields:
  "focusPrimitives (focusByKey name i ps gli) = focusPrimitives gli"
  "rightPanel (focusByKey name i ps gli) = rightPanel gli"
  by (induction ps arbitrary: i gli) (simp_all add: SetFocus_def)

lemma focusCommandForm_base:
  assumes "list_all (\<lambda>pk. detailView (Primitive pk)) extra"
  shows "focusCommandForm 0 (baseRing @ extra) gli =
           (SetFocus P_commandFormPanel gli)\<lparr>currentFocusIndex := 1\<rparr>"
proof -
  have "list_all (\<lambda>pk. Primitive pk \<noteq> P_commandFormPanel) extra"
    using assms by (induction extra) (auto simp: detailView_def)
  then show ?thesis
    by (simp add: baseRing_def focusCommandForm_nomatch)
qed

lemma Start_layout:
  "focusPrimitives (Start rc gli) = focusPrimitives gli"
  "rightPanel (Start rc gli) = rightPanel gli"
  by (simp_all add: Start_def initialLoad_def Let_def request_def send_def showKeys_def
      SetFocus_def split: sum.splits option.splits prod.splits)

lemma command_toggle_on:
  assumes "layoutInv gli" and "\<not> commandMode gli"
  shows "command_toggle gli =
           gli\<lparr>commandMode := True,
               rightPanel := [P_helpPanel, P_metaPanel, P_commandPanel, P_outputPanel],
               focus := Some P_commandFormPanel, currentFocusIndex := 1\<rparr>"
proof -
  let ?g = "redrawRightPanel P_commandPanel (gli\<lparr>commandMode := True\<rparr>)"
  have r: "rightPanel ?g = [P_helpPanel, P_metaPanel, P_commandPanel, P_outputPanel]"
    using assms(1) by (intro redrawRightPanel_inv) (simp add: layoutInv_def)
  have g: "?g = gli\<lparr>commandMode := True,
                     rightPanel := [P_helpPanel, P_metaPanel, P_commandPanel, P_outputPanel]\<rparr>"
    using r by (simp add: redrawRightPanel_def)
  have ring: "focusPrimitives ?g = baseRing @ drop 5 (focusPrimitives gli)"
    using layoutInv_ring[OF assms(1)] by (simp add: redrawRightPanel_def)
  have d: "list_all (\<lambda>pk. detailView (Primitive pk)) (drop 5 (focusPrimitives gli))"
    using assms(1) by (simp add: layoutInv_def)
  have "command_toggle gli = focusCommandForm 0 (focusPrimitives ?g) ?g"
    using assms(2) by (simp add: command_toggle_def Let_def)
  also have "\<dots> = (SetFocus P_commandFormPanel ?g)\<lparr>currentFocusIndex := 1\<rparr>"
    unfolding ring by (rule focusCommandForm_base[OF d])
  finally show ?thesis
    unfolding g by (simp add: SetFocus_def)
qed

lemma command_toggle_off:
  assumes "layoutInv gli" and "commandMode gli"
  shows "command_toggle gli =
           gli\<lparr>commandMode := False,
               rightPanel := [P_helpPanel, P_metaPanel, P_mainPanel, P_outputPanel],
               focus := Some P_searchPanel, currentFocusIndex := 0\<rparr>"
proof -
  let ?g = "redrawRightPanel P_mainPanel (gli\<lparr>commandMode := False\<rparr>)"
  have r: "rightPanel ?g = [P_helpPanel, P_metaPanel, P_mainPanel, P_outputPanel]"
    using assms(1) by (intro redrawRightPanel_inv) (simp add: layoutInv_def)
  have g: "?g = gli\<lparr>commandMode := False,
                     rightPanel := [P_helpPanel, P_metaPanel, P_mainPanel, P_outputPanel]\<rparr>"
    using r by (simp add: redrawRightPanel_def)
  have "command_toggle gli = (SetFocus P_searchPanel ?g)\<lparr>currentFocusIndex := 0\<rparr>"
    using assms(2) by (simp add: command_toggle_def)
  then show ?thesis
    unfolding g by (simp add: SetFocus_def)
qed

lemma layoutInv_command_toggle:
  "layoutInv gli \<Longrightarrow> layoutInv (command_toggle gli)"
  by (cases "commandMode gli")
     (simp_all add: command_toggle_on command_toggle_off, simp_all add: layoutInv_def)

lemma switch_focus_layout:
  "switch_focus gli = Inr gli' \<Longrightarrow>
   focusPrimitives gli' = focusPrimitives gli \<and> rightPanel gli' = rightPanel gli"
  by (auto simp: switch_focus_def Let_def SetFocus_def split: if_splits)

lemma layoutInv_send: "layoutInv (send c m gli) = layoutInv gli"
  by (simp add: layoutInv_def send_def)

lemma layoutInv_InputCapture:
  assumes "layoutInv gli" and "InputCapture names ord k gli = Inr (gli', ev)"
  shows "layoutInv gli'"
proof -
  let ?g = "if Debug (config gli)
            then send ColorZero (''Key '' @ names k @ '' pressed'') gli else gli"
  have i: "layoutInv ?g" using assms(1) by (simp add: layoutInv_send)
  consider (tab) "SearchKey ord k = ''switch_focus''"
    | (quit) "SearchKey ord k \<noteq> ''switch_focus''" "SearchKey ord k = ''quit''"
    | (cmd) "SearchKey ord k \<noteq> ''switch_focus''" "SearchKey ord k \<noteq> ''quit''"
        "SearchKey ord k = ''command''"
    | (other) "SearchKey ord k \<noteq> ''switch_focus''" "SearchKey ord k \<noteq> ''quit''"
        "SearchKey ord k \<noteq> ''command''"
    by blast
  then show ?thesis
  proof cases
    case tab
    then have "switch_focus ?g = Inr gli'"
      using assms(2) by (auto simp: InputCapture_def Let_def split: sum.splits)
    then show ?thesis
      using i switch_focus_layout layoutInv_cong by blast
  next
    case quit
    then have "gli' = ?g\<lparr>stopped := True\<rparr>"
      using assms(2) by (auto simp: InputCapture_def Let_def)
    then show ?thesis using i by (simp add: layoutInv_def)
  next
    case cmd
    then have "gli' = command_toggle ?g"
      using assms(2) by (auto simp: InputCapture_def Let_def)
    then show ?thesis using i by (simp add: layoutInv_command_toggle)
  next
    case other
    then have "gli' = focusByKey (SearchKey ord k) 0 (focusPrimitives ?g) ?g"
      using assms(2) by (auto simp: InputCapture_def Let_def)
    then show ?thesis
      using i layoutInv_cong[OF focusByKey_fields] by blast
  qed
qed

lemma layoutInv_step:
  assumes "layoutInv gli" and "step names e gli = Inr gli'"
  shows "layoutInv gli'"
proof (cases e)
  case (StartUp rc)
  then show ?thesis
    using assms layoutInv_cong[OF Start_layout] by auto
next
  case (KeyPress ord k)
  then obtain ev where "InputCapture names ord k gli = Inr (gli', ev)"
    using assms(2) by (cases "InputCapture names ord k gli") auto
  then show ?thesis using assms(1) by (rule layoutInv_InputCapture[rotated])
next
  case (EditSearch t)
  then show ?thesis using assms by (auto simp: layoutInv_def)
next
  case (SearchDone rc k)
  then show ?thesis
    using assms
    by (auto simp: layoutInv_def searchDoneFunc_def Let_def request_def send_def showKeys_def
        split: sum.splits if_splits prod.splits)
next
  case (ItemSelected rc i key)
  then show ?thesis using assms by (auto simp: layoutInv_itemSelected)
next
  case (HashItemSelected rc key k)
  then show ?thesis
    using assms
    by (auto simp: layoutInv_def hashItemSelected_def request_def send_def split: sum.splits)
next
  case (EditCommand t)
  then show ?thesis using assms by (auto simp: layoutInv_def)
next
  case (CommandDone k)
  then show ?thesis
    using assms
    by (auto simp: layoutInv_def commandDoneFunc_def Let_def send_def
        split: if_splits option.splits)
next
  case AlertDone
  then show ?thesis
    using assms by (auto simp: layoutInv_def alertDoneFunc_def SetFocus_def split: option.splits)
next
  case (RunUpdate rc)
  then show ?thesis
    using assms
    by (auto simp: layoutInv_def runUpdate_def commandUpdate_def Let_def request_def send_def
        split: list.splits sum.splits)
qed

lemma layoutInv_run:
  "layoutInv gli \<Longrightarrow> run names evs gli = Inr gli' \<Longrightarrow> layoutInv gli'"
proof (induction evs arbitrary: gli)
  case Nil
  then show ?case by simp
next
  case (Cons e evs)
  then obtain g1 where g1: "step names e gli = Inr g1" "run names evs g1 = Inr gli'"
    by (cases "step names e gli") auto
  then show ?case using Cons.IH layoutInv_step[OF Cons.prems(1)] by blast
qed

lemma layoutInv_NewRedisGli:
  "NewRedisGli names m v g c = Inr gli \<Longrightarrow> layoutInv gli"
  by (auto simp: construct_defs layoutInv_def baseRing_def split: if_splits)

section \<open>The command mode\<close>

text \<open>
  \<^bold>\<open>C8\<close>. In every state that the constructed application reaches through its events,
  a key of the action \<open>command\<close> (F1 or Ctrl-N, in whatever order the map is traversed)
  does the following and passes the event on. With \<open>commandMode\<close> set: \<open>commandMode\<close>
  becomes false, the centre of the right panel is the key-detail panel again, the focus
  goes to the search field and the index of the focus ring becomes 0. With \<open>commandMode\<close>
  not set: \<open>commandMode\<close> becomes true, the centre of the right panel is the command
  panel, the focus goes to the command field and the index becomes 1, the position of
  the command field in the ring. Nothing else changes, but for the message that the debug
  flag adds.
\<close>

theorem command_toggle_dispatch:
  assumes "NewRedisGli names m v g c = Inr gli0"
    and "run names evs gli0 = Inr gli"
    and "traversal_of keyBindings ord"
    and "k \<in> set (Keys keyBindings ''command'')"
  shows "(commandMode gli \<longrightarrow>
           InputCapture names ord k gli =
             Inr ((if Debug (config gli)
                   then send ColorZero (''Key '' @ names k @ '' pressed'') gli else gli)
                    \<lparr>commandMode := False,
                     rightPanel := [P_helpPanel, P_metaPanel, P_mainPanel, P_outputPanel],
                     focus := Some P_searchPanel, currentFocusIndex := 0\<rparr>, Some k))
       \<and> (\<not> commandMode gli \<longrightarrow>
           InputCapture names ord k gli =
             Inr ((if Debug (config gli)
                   then send ColorZero (''Key '' @ names k @ '' pressed'') gli else gli)
                    \<lparr>commandMode := True,
                     rightPanel := [P_helpPanel, P_metaPanel, P_commandPanel, P_outputPanel],
                     focus := Some P_commandFormPanel, currentFocusIndex := 1\<rparr>, Some k)
           \<and> Primitive (focusPrimitives gli ! 1) = P_commandFormPanel)"
proof -
  let ?g = "if Debug (config gli)
            then send ColorZero (''Key '' @ names k @ '' pressed'') gli else gli"
  have inv: "layoutInv gli"
    using layoutInv_run[OF layoutInv_NewRedisGli[OF assms(1)] assms(2)] .
  then have i: "layoutInv ?g" by (simp add: layoutInv_send)
  have n: "SearchKey ord k = ''command''"
    using assms(3,4) by (rule SearchKey_command)
  have d: "InputCapture names ord k gli = Inr (command_toggle ?g, Some k)"
    using n by (simp add: InputCapture_def Let_def)
  have m: "commandMode ?g = commandMode gli" by (simp add: send_def)
  have "focusPrimitives gli = baseRing @ drop 5 (focusPrimitives gli)"
    using inv by (rule layoutInv_ring)
  then have p: "Primitive (focusPrimitives gli ! 1) = P_commandFormPanel"
    by (metis (no_types) One_nat_def baseRing_def nth_Cons_0 nth_Cons_Suc append_Cons
        primitiveKey.select_convs(1))
  show ?thesis
    using command_toggle_on[OF i] command_toggle_off[OF i] m d p by auto
qed

theorem command_toggle_dispatch_witness:
  "InputCapture demoNames keyBindings KeyF1 demoStarted =
     Inr (demoStarted\<lparr>commandMode := True,
            rightPanel := [P_helpPanel, P_metaPanel, P_commandPanel, P_outputPanel],
            focus := Some P_commandFormPanel, currentFocusIndex := 1\<rparr>, Some KeyF1)
   \<and> InputCapture demoNames (rev keyBindings) KeyCtrlN
       (demoStarted\<lparr>commandMode := True,
            rightPanel := [P_helpPanel, P_metaPanel, P_commandPanel, P_outputPanel],
            focus := Some P_commandFormPanel, currentFocusIndex := 1\<rparr>) =
     Inr (demoStarted\<lparr>commandMode := False,
            rightPanel := [P_helpPanel, P_metaPanel, P_mainPanel, P_outputPanel],
            focus := Some P_searchPanel, currentFocusIndex := 0\<rparr>, Some KeyCtrlN)"
proof -
  let ?rc = "storeClient demoDb"
  let ?on = "demoStarted\<lparr>commandMode := True,
            rightPanel := [P_helpPanel, P_metaPanel, P_commandPanel, P_outputPanel],
            focus := Some P_commandFormPanel, currentFocusIndex := 1\<rparr>"
  have t1: "traversal_of keyBindings keyBindings"
    and t2: "traversal_of keyBindings (rev keyBindings)"
    by (simp_all add: traversal_of_def)
  have k1: "KeyF1 \<in> set (Keys keyBindings ''command'')"
    and k2: "KeyCtrlN \<in> set (Keys keyBindings ''command'')"
    by (simp_all add: Keys_def keyBindings_def)
  have r1: "run demoNames [StartUp ?rc] demoGli = Inr demoStarted"
    by (simp add: demoStarted_def)
  have w1: "InputCapture demoNames keyBindings KeyF1 demoStarted = Inr (?on, Some KeyF1)"
    using command_toggle_dispatch[OF demoGli r1 t1 k1]
    by (simp add: demoStarted_fields)
  have r2: "run demoNames [StartUp ?rc, KeyPress keyBindings KeyF1] demoGli = Inr ?on"
    using w1 by (simp add: demoStarted_def[symmetric])
  have w2: "InputCapture demoNames (rev keyBindings) KeyCtrlN ?on =
     Inr (demoStarted\<lparr>commandMode := False,
            rightPanel := [P_helpPanel, P_metaPanel, P_mainPanel, P_outputPanel],
            focus := Some P_searchPanel, currentFocusIndex := 0\<rparr>, Some KeyCtrlN)"
    using command_toggle_dispatch[OF demoGli r2 t2 k2]
    by (simp add: demoStarted_fields)
  show ?thesis using w1 w2 by simp
qed

section \<open>The focus index in reachable states\<close>




























end
